theory Spec2Isabelle
  imports Main
begin

section \<open>Drawing elements\<close>

text \<open>
  The client handles elements as untyped objects. The fields the collaboration code reads are
  the id, the two version fields (either may be missing, hence optional) and the tombstone
  flag; everything else travels along as an opaque payload. Field names carry a prefix
  because \<open>id\<close> and \<open>version\<close> are used by other records of the program as well.
\<close>

record element =
  el_id :: string
  el_version :: "int option"
  el_versionNonce :: "int option"
  el_isDeleted :: bool
  el_payload :: string

text \<open>The nullish coalescing \<^verbatim>\<open>x ?? d\<close> (and \<^verbatim>\<open>x || d\<close> on objects) of the source.\<close>

definition nullish :: "'a option \<Rightarrow> 'a \<Rightarrow> 'a" where
  "nullish x d = (case x of None \<Rightarrow> d | Some v \<Rightarrow> v)"

section \<open>Element version tracker (SharedView)\<close>

record ElementVersionInfo =
  version :: int
  versionNonce :: int

type_synonym elementVersionMap = "string \<rightharpoonup> ElementVersionInfo"

definition recordElementVersion :: "element \<Rightarrow> elementVersionMap \<Rightarrow> elementVersionMap" where
  "recordElementVersion element m =
     m(el_id element \<mapsto>
        \<lparr>version = nullish (el_version element) 0,
         versionNonce = nullish (el_versionNonce element) 0\<rparr>)"

text \<open>
  \<^verbatim>\<open>hasElementChanged\<close> returns its verdict together with the tracker it leaves behind: an
  unseen id is recorded on the spot, a seen one is only compared.
\<close>

definition hasElementChanged :: "element \<Rightarrow> elementVersionMap \<Rightarrow> bool \<times> elementVersionMap" where
  "hasElementChanged element m =
     (case m (el_id element) of
        None \<Rightarrow> (True, recordElementVersion element m)
      | Some previous \<Rightarrow>
          (version previous \<noteq> nullish (el_version element) 0
             \<or> versionNonce previous \<noteq> nullish (el_versionNonce element) 0, m))"

section \<open>Reconciliation engine\<close>

text \<open>
  Modelled from the spec: \<^verbatim>\<open>reconcileElements\<close> is imported by SharedView from
  \<^verbatim>\<open>utils/sync\<close>, and the source of that module is missing. The spec's section 4.3
  gives its algorithm, which the following definitions transcribe: the local sequence is the
  base; each remote element is looked up by id; an absent one is appended, a present one
  replaces the local element in place when it wins the version comparison.
\<close>

text \<open>
  Modelled from the spec: the comparison of section 4.3, step 2 (a greater version wins; at
  equal versions a differing nonce wins; a missing field counts as 0).
\<close>

definition remote_wins :: "element \<Rightarrow> element \<Rightarrow> bool" where
  "remote_wins r l =
     (nullish (el_version r) 0 > nullish (el_version l) 0
      \<or> (nullish (el_version r) 0 = nullish (el_version l) 0
          \<and> nullish (el_versionNonce r) 0 \<noteq> nullish (el_versionNonce l) 0))"

text \<open>Modelled from the spec: the lookup of a local element by id (section 4.3, step 1).\<close>

definition find_local :: "string \<Rightarrow> element list \<Rightarrow> element option" where
  "find_local k ls = find (\<lambda>l. el_id l = k) ls"

text \<open>Modelled from the spec: "replace in place (preserving original position)".\<close>

fun replace_in_place :: "element \<Rightarrow> element list \<Rightarrow> element list" where
  "replace_in_place r [] = []"
| "replace_in_place r (l # ls) =
     (if el_id l = el_id r then r # ls else l # replace_in_place r ls)"

text \<open>Modelled from the spec: the treatment of one remote element (section 4.3, step 2).\<close>

definition reconcile_one :: "element \<Rightarrow> element list \<Rightarrow> element list" where
  "reconcile_one r acc =
     (case find_local (el_id r) acc of
        None \<Rightarrow> acc @ [r]
      | Some l \<Rightarrow> if remote_wins r l then replace_in_place r acc else acc)"

text \<open>
  Modelled from the spec: \<^verbatim>\<open>reconcile(localElements, remoteElements)\<close>, the remote
  elements taken one after the other. Tombstoned elements are kept like any other.
\<close>

definition reconcileElements :: "element list \<Rightarrow> element list \<Rightarrow> element list" where
  "reconcileElements localElements remoteElements =
     fold reconcile_one remoteElements localElements"

section \<open>Timers: lodash debounce and throttle\<close>

text \<open>
  SharedView wraps its save function in lodash's \<^verbatim>\<open>debounce\<close> and its broadcast function in
  \<^verbatim>\<open>throttle\<close>. The library is a dependency of the repository; its \<^verbatim>\<open>debounce\<close> is a
  small state machine over the last arguments, the time of the last call, the time of the last
  invocation and a pending timer, and \<^verbatim>\<open>throttle\<close> is \<^verbatim>\<open>debounce\<close> with \<^verbatim>\<open>maxWait\<close> equal
  to the wait. Time is explicit: every operation takes the current \<^verbatim>\<open>Date.now()\<close>, a timer is
  the time at which it is due, and an operation returns the arguments with which the wrapped
  function is invoked, if it is.
\<close>

record debounce_options =
  wait :: int
  leading :: bool
  maxWait :: "int option"
  trailing :: bool

record 'a debounce_state =
  lastArgs :: "'a option"
  lastCallTime :: "int option"
  lastInvokeTime :: int
  timerId :: "int option"

definition debounce_init :: "'a debounce_state" where
  "debounce_init = \<lparr>lastArgs = None, lastCallTime = None, lastInvokeTime = 0, timerId = None\<rparr>"

definition debounce_opts :: "int \<Rightarrow> debounce_options" where
  "debounce_opts w = \<lparr>wait = w, leading = False, maxWait = None, trailing = True\<rparr>"

definition throttle_opts :: "int \<Rightarrow> bool \<Rightarrow> bool \<Rightarrow> debounce_options" where
  "throttle_opts w l t = \<lparr>wait = w, leading = l, maxWait = Some w, trailing = t\<rparr>"

definition shouldInvoke :: "debounce_options \<Rightarrow> int \<Rightarrow> 'a debounce_state \<Rightarrow> bool" where
  "shouldInvoke opts time st =
     (case lastCallTime st of
        None \<Rightarrow> True
      | Some lc \<Rightarrow>
          time - lc \<ge> wait opts \<or> time - lc < 0
          \<or> (case maxWait opts of None \<Rightarrow> False
               | Some mw \<Rightarrow> time - lastInvokeTime st \<ge> mw))"

definition remainingWait :: "debounce_options \<Rightarrow> int \<Rightarrow> 'a debounce_state \<Rightarrow> int" where
  "remainingWait opts time st =
     (let timeWaiting = wait opts - (time - nullish (lastCallTime st) 0)
      in case maxWait opts of
           None \<Rightarrow> timeWaiting
         | Some mw \<Rightarrow> min timeWaiting (mw - (time - lastInvokeTime st)))"

definition invokeFunc :: "int \<Rightarrow> 'a debounce_state \<Rightarrow> 'a option \<times> 'a debounce_state" where
  "invokeFunc time st = (lastArgs st, st\<lparr>lastArgs := None, lastInvokeTime := time\<rparr>)"

definition leadingEdge ::
  "debounce_options \<Rightarrow> int \<Rightarrow> 'a debounce_state \<Rightarrow> 'a option \<times> 'a debounce_state" where
  "leadingEdge opts time st =
     (let st1 = st\<lparr>lastInvokeTime := time, timerId := Some (time + wait opts)\<rparr>
      in if leading opts then invokeFunc time st1 else (None, st1))"

definition trailingEdge ::
  "debounce_options \<Rightarrow> int \<Rightarrow> 'a debounce_state \<Rightarrow> 'a option \<times> 'a debounce_state" where
  "trailingEdge opts time st =
     (let st1 = st\<lparr>timerId := None\<rparr>
      in if trailing opts \<and> lastArgs st1 \<noteq> None then invokeFunc time st1
         else (None, st1\<lparr>lastArgs := None\<rparr>))"

definition timerExpired ::
  "debounce_options \<Rightarrow> int \<Rightarrow> 'a debounce_state \<Rightarrow> 'a option \<times> 'a debounce_state" where
  "timerExpired opts time st =
     (if shouldInvoke opts time st then trailingEdge opts time st
      else (None, st\<lparr>timerId := Some (time + remainingWait opts time st)\<rparr>))"

definition debounced ::
  "debounce_options \<Rightarrow> int \<Rightarrow> 'a \<Rightarrow> 'a debounce_state \<Rightarrow> 'a option \<times> 'a debounce_state" where
  "debounced opts time args st =
     (let isInvoking = shouldInvoke opts time st;
          st1 = st\<lparr>lastArgs := Some args, lastCallTime := Some time\<rparr>
      in if isInvoking \<and> timerId st1 = None then leadingEdge opts time st1
         else if isInvoking \<and> maxWait opts \<noteq> None then
           invokeFunc time (st1\<lparr>timerId := Some (time + wait opts)\<rparr>)
         else if timerId st1 = None then (None, st1\<lparr>timerId := Some (time + wait opts)\<rparr>)
         else (None, st1))"

definition timer_due :: "int \<Rightarrow> 'a debounce_state \<Rightarrow> bool" where
  "timer_due time st = (case timerId st of None \<Rightarrow> False | Some due \<Rightarrow> due \<le> time)"

section \<open>SharedView: state\<close>

record UserIdentity =
  user_id :: string
  user_name :: string
  user_initials :: string
  user_color :: string

record SharedDrawing =
  sd_id :: string
  sd_name :: string
  sd_elements :: "element list"
  sd_permission :: string
  sd_version :: int

record collaborator =
  c_pointer :: "int \<times> int"
  c_button :: string
  c_username :: string
  c_color :: string

text \<open>
  The Excalidraw component is a dependency as well. Of its application state the code reads the
  three persisted settings, the selection and the collaborators; of its API the scene elements
  (deleted ones included) and the application state.
\<close>

record appState =
  viewBackgroundColor :: "string option"
  currentItemFontFamily :: "int option"
  gridSize :: "int option"
  selectedElementIds :: "(string \<rightharpoonup> bool) option"
  collaborators :: "(string \<times> collaborator) list option"

record excalidraw =
  sceneElements :: "element list"
  sceneAppState :: appState

record savedAppState =
  saved_viewBackgroundColor :: "string option"
  saved_currentItemFontFamily :: "int option"
  saved_gridSize :: "int option"

record save_payload =
  sp_elements :: "element list"
  sp_appState :: savedAppState

record CursorMove =
  cm_pointer :: "int \<times> int"
  cm_button :: string
  cm_username :: string
  cm_userId :: string
  cm_drawingId :: string
  cm_color :: string

record ElementUpdate =
  eu_drawingId :: string
  eu_elements :: "element list"
  eu_userId :: string

text \<open>What the component sends out: the store's update call and the two socket messages.\<close>

datatype effect =
    ApiUpdateSharedDrawing string save_payload
  | EmitElementUpdate ElementUpdate
  | EmitCursorMove CursorMove

text \<open>
  The save function is created inside \<^verbatim>\<open>useRef(debounce(...))\<close>. \<^verbatim>\<open>useRef\<close> keeps the value
  of its argument from the first render only, so the function that runs is the one created in
  the first render, and the \<^verbatim>\<open>token\<close> and \<^verbatim>\<open>drawing\<close> it reads are the ones of that render.
  The record below is this captured environment. The broadcast function, the pointer handler
  and the change handler are created with \<^verbatim>\<open>useCallback\<close> and list \<^verbatim>\<open>drawing\<close> among their
  dependencies: they read the current state.
\<close>

record save_closure =
  env_token :: "string option"
  env_drawing :: "SharedDrawing option"

record SharedView =
  token :: "string option"
  drawing :: "SharedDrawing option"
  me :: UserIdentity
  excalidrawAPI :: "excalidraw option"
  socketRef :: bool
  isSyncing :: bool
  latestElementsRef :: "element list"
  elementVersionMap :: elementVersionMap
  cursorBuffer :: "(string \<times> collaborator) list"
  elementUpdateBuffer :: "element list"
  lastCursorEmit :: int
  debouncedSave_closure :: save_closure
  debouncedSave_timer :: "(element list \<times> appState) debounce_state"
  broadcastChanges_timer :: "(element list) debounce_state"

text \<open>The first render: \<^verbatim>\<open>useState(null)\<close> for the drawing, empty refs, idle timers.\<close>

definition first_render :: "string option \<Rightarrow> UserIdentity \<Rightarrow> SharedView" where
  "first_render tok ident =
     \<lparr>token = tok, drawing = None, me = ident, excalidrawAPI = None, socketRef = False,
      isSyncing = False, latestElementsRef = [], elementVersionMap = Map.empty,
      cursorBuffer = [], elementUpdateBuffer = [], lastCursorEmit = 0,
      debouncedSave_closure = \<lparr>env_token = tok, env_drawing = None\<rparr>,
      debouncedSave_timer = debounce_init, broadcastChanges_timer = debounce_init\<rparr>"

text \<open>The load effect, once the shared drawing has arrived.\<close>

definition load :: "SharedDrawing \<Rightarrow> SharedView \<Rightarrow> SharedView" where
  "load data s =
     s\<lparr>drawing := Some data,
       elementVersionMap := fold recordElementVersion (sd_elements data) (elementVersionMap s),
       latestElementsRef := sd_elements data\<rparr>"

definition setExcalidrawAPI :: "excalidraw \<Rightarrow> SharedView \<Rightarrow> SharedView" where
  "setExcalidrawAPI api s = s\<lparr>excalidrawAPI := Some api\<rparr>"

text \<open>The socket effect stores the socket in \<^verbatim>\<open>socketRef\<close>.\<close>

definition connect_socket :: "SharedView \<Rightarrow> SharedView" where
  "connect_socket s = s\<lparr>socketRef := True\<rparr>"

section \<open>SharedView: saving and broadcasting local changes\<close>

text \<open>The body of the debounced save, reading the captured environment.\<close>

definition save_body :: "save_closure \<Rightarrow> element list \<times> appState \<Rightarrow> effect list" where
  "save_body env args =
     (case env_token env of
        None \<Rightarrow> []
      | Some tok \<Rightarrow>
         (case env_drawing env of
            None \<Rightarrow> []
          | Some d \<Rightarrow>
              if tok = [] \<or> sd_permission d \<noteq> ''edit'' then []
              else [ApiUpdateSharedDrawing tok
                      \<lparr>sp_elements = filter (\<lambda>e. \<not> el_isDeleted e) (fst args),
                       sp_appState =
                         \<lparr>saved_viewBackgroundColor = viewBackgroundColor (snd args),
                          saved_currentItemFontFamily = currentItemFontFamily (snd args),
                          saved_gridSize = gridSize (snd args)\<rparr>\<rparr>]))"

text \<open>One round of the \<^verbatim>\<open>forEach\<close> in the broadcast body.\<close>

definition collect_change ::
  "element \<Rightarrow> element list \<times> elementVersionMap \<Rightarrow> element list \<times> elementVersionMap" where
  "collect_change el acc =
     (case hasElementChanged el (snd acc) of
        (changed, m) \<Rightarrow>
          if changed then (fst acc @ [el], recordElementVersion el m) else (fst acc, m))"

definition broadcast_body :: "element list \<Rightarrow> SharedView \<Rightarrow> effect list \<times> SharedView" where
  "broadcast_body els s =
     (case drawing s of
        None \<Rightarrow> ([], s)
      | Some d \<Rightarrow>
          if \<not> socketRef s then ([], s)
          else (case fold collect_change els ([], elementVersionMap s) of
                  (changes, m) \<Rightarrow>
                    (if changes \<noteq> [] then
                       [EmitElementUpdate
                          \<lparr>eu_drawingId = sd_id d, eu_elements = changes,
                           eu_userId = user_id (me s)\<rparr>]
                     else [],
                     s\<lparr>elementVersionMap := m\<rparr>)))"

definition run_save :: "(element list \<times> appState) option \<Rightarrow> SharedView \<Rightarrow> effect list" where
  "run_save fired s =
     (case fired of None \<Rightarrow> [] | Some args \<Rightarrow> save_body (debouncedSave_closure s) args)"

definition run_broadcast ::
  "element list option \<Rightarrow> SharedView \<Rightarrow> effect list \<times> SharedView" where
  "run_broadcast fired s = (case fired of None \<Rightarrow> ([], s) | Some els \<Rightarrow> broadcast_body els s)"

definition debouncedSave ::
  "int \<Rightarrow> element list \<times> appState \<Rightarrow> SharedView \<Rightarrow> effect list \<times> SharedView" where
  "debouncedSave now args s =
     (case debounced (debounce_opts 1500) now args (debouncedSave_timer s) of
        (fired, t) \<Rightarrow> (run_save fired s, s\<lparr>debouncedSave_timer := t\<rparr>))"

definition broadcastChanges ::
  "int \<Rightarrow> element list \<Rightarrow> SharedView \<Rightarrow> effect list \<times> SharedView" where
  "broadcastChanges now els s =
     (case debounced (throttle_opts 50 True True) now els (broadcastChanges_timer s) of
        (fired, t) \<Rightarrow> run_broadcast fired (s\<lparr>broadcastChanges_timer := t\<rparr>))"

definition handleCanvasChange ::
  "int \<Rightarrow> element list \<Rightarrow> appState \<Rightarrow> SharedView \<Rightarrow> effect list \<times> SharedView" where
  "handleCanvasChange now els app s =
     (case drawing s of
        None \<Rightarrow> ([], s)
      | Some d \<Rightarrow>
          if isSyncing s then ([], s)
          else
            let allElements = (case excalidrawAPI s of
                                 Some api \<Rightarrow> sceneElements api | None \<Rightarrow> els);
                s1 = s\<lparr>latestElementsRef := allElements\<rparr>
            in if sd_permission d = ''edit'' then
                 (case debouncedSave now (allElements, app) s1 of
                    (fx1, s2) \<Rightarrow>
                      (case broadcastChanges now allElements s2 of
                         (fx2, s3) \<Rightarrow> (fx1 @ fx2, s3)))
               else ([], s1))"

text \<open>The two timers running out, at time \<open>now\<close>.\<close>

definition debouncedSave_expired :: "int \<Rightarrow> SharedView \<Rightarrow> effect list \<times> SharedView" where
  "debouncedSave_expired now s =
     (if timer_due now (debouncedSave_timer s) then
        (case timerExpired (debounce_opts 1500) now (debouncedSave_timer s) of
           (fired, t) \<Rightarrow> (run_save fired s, s\<lparr>debouncedSave_timer := t\<rparr>))
      else ([], s))"

definition broadcastChanges_expired :: "int \<Rightarrow> SharedView \<Rightarrow> effect list \<times> SharedView" where
  "broadcastChanges_expired now s =
     (if timer_due now (broadcastChanges_timer s) then
        (case timerExpired (throttle_opts 50 True True) now (broadcastChanges_timer s) of
           (fired, t) \<Rightarrow> run_broadcast fired (s\<lparr>broadcastChanges_timer := t\<rparr>))
      else ([], s))"

definition timers_fire :: "int \<Rightarrow> SharedView \<Rightarrow> effect list \<times> SharedView" where
  "timers_fire now s =
     (case debouncedSave_expired now s of
        (fx1, s1) \<Rightarrow>
          (case broadcastChanges_expired now s1 of
             (fx2, s2) \<Rightarrow> (fx1 @ fx2, s2)))"

section \<open>SharedView: cursor broadcast\<close>

definition onPointerUpdate ::
  "int \<Rightarrow> (int \<times> int) \<times> string \<Rightarrow> SharedView \<Rightarrow> effect list \<times> SharedView" where
  "onPointerUpdate now payload s =
     (case drawing s of
        None \<Rightarrow> ([], s)
      | Some d \<Rightarrow>
          if now - lastCursorEmit s > 33 \<and> socketRef s then
            ([EmitCursorMove
                \<lparr>cm_pointer = fst payload, cm_button = snd payload,
                 cm_username = user_name (me s), cm_userId = user_id (me s),
                 cm_drawingId = sd_id d, cm_color = user_color (me s)\<rparr>],
             s\<lparr>lastCursorEmit := now\<rparr>)
          else ([], s))"

section \<open>SharedView: remote updates and the render loop\<close>

text \<open>\<^verbatim>\<open>Map.prototype.set\<close> on a map kept in insertion order.\<close>

fun map_set :: "'k \<Rightarrow> 'v \<Rightarrow> ('k \<times> 'v) list \<Rightarrow> ('k \<times> 'v) list" where
  "map_set k v [] = [(k, v)]"
| "map_set k v (p # ps) = (if fst p = k then (k, v) # ps else p # map_set k v ps)"

text \<open>The socket handlers only fill the two buffers.\<close>

definition on_element_update :: "element list \<Rightarrow> SharedView \<Rightarrow> SharedView" where
  "on_element_update els s = s\<lparr>elementUpdateBuffer := elementUpdateBuffer s @ els\<rparr>"

definition on_cursor_move :: "string \<Rightarrow> collaborator \<Rightarrow> SharedView \<Rightarrow> SharedView" where
  "on_cursor_move userId c s = s\<lparr>cursorBuffer := map_set userId c (cursorBuffer s)\<rparr>"

definition dedup_step :: "element \<Rightarrow> (string \<times> element) list \<Rightarrow> (string \<times> element) list" where
  "dedup_step el dedupMap =
     (case map_of dedupMap (el_id el) of
        None \<Rightarrow> map_set (el_id el) el dedupMap
      | Some existing \<Rightarrow>
          if nullish (el_version el) 0 > nullish (el_version existing) 0
          then map_set (el_id el) el dedupMap else dedupMap)"

text \<open>\<^verbatim>\<open>!mySelectedIds[el.id]\<close> fails exactly for an id the selection maps to true.\<close>

definition is_selected :: "appState \<Rightarrow> string \<Rightarrow> bool" where
  "is_selected app k =
     (case selectedElementIds app of None \<Rightarrow> False | Some sel \<Rightarrow> sel k = Some True)"

text \<open>
  The element half of a tick. The buffer is emptied as soon as it has been deduplicated; the
  elements the selection excludes are not put back.
\<close>

definition drain_elements :: "excalidraw \<Rightarrow> SharedView \<Rightarrow> excalidraw \<times> SharedView" where
  "drain_elements api s =
     (if elementUpdateBuffer s \<noteq> [] then
        let dedupMap = fold dedup_step (elementUpdateBuffer s) [];
            s1 = s\<lparr>isSyncing := True, elementUpdateBuffer := []\<rparr>;
            remoteElements =
              filter (\<lambda>el. \<not> is_selected (sceneAppState api) (el_id el)) (map snd dedupMap)
        in if remoteElements \<noteq> [] then
             let mergedElements = reconcileElements (sceneElements api) remoteElements
             in (api\<lparr>sceneElements := mergedElements\<rparr>,
                 s1\<lparr>elementVersionMap :=
                      fold recordElementVersion remoteElements (elementVersionMap s1),
                    latestElementsRef := mergedElements\<rparr>)
           else (api, s1)
      else (api, s))"

definition drain_cursors :: "excalidraw \<Rightarrow> SharedView \<Rightarrow> excalidraw \<times> SharedView" where
  "drain_cursors api s =
     (if cursorBuffer s \<noteq> [] then
        (api\<lparr>sceneAppState := (sceneAppState api)
               \<lparr>collaborators :=
                  Some (fold (\<lambda>p. map_set (fst p) (snd p)) (cursorBuffer s)
                          (nullish (collaborators (sceneAppState api)) []))\<rparr>\<rparr>,
         s\<lparr>cursorBuffer := []\<rparr>)
      else (api, s))"

text \<open>One tick; without the Excalidraw API the tick only reschedules itself.\<close>

definition renderLoop :: "SharedView \<Rightarrow> SharedView" where
  "renderLoop s =
     (case excalidrawAPI s of
        None \<Rightarrow> s
      | Some api \<Rightarrow>
          (case drain_elements api s of
             (api1, s1) \<Rightarrow>
               (case drain_cursors api1 s1 of
                  (api2, s2) \<Rightarrow> s2\<lparr>excalidrawAPI := Some api2\<rparr>)))"

text \<open>The animation frame after a tick that set \<^verbatim>\<open>isSyncing\<close>.\<close>

definition reset_isSyncing :: "SharedView \<Rightarrow> SharedView" where
  "reset_isSyncing s = s\<lparr>isSyncing := False\<rparr>"

text \<open>What the user does inside the Excalidraw component: selecting and editing.\<close>

definition set_selection :: "(string \<rightharpoonup> bool) \<Rightarrow> SharedView \<Rightarrow> SharedView" where
  "set_selection sel s =
     (case excalidrawAPI s of
        None \<Rightarrow> s
      | Some api \<Rightarrow>
          s\<lparr>excalidrawAPI :=
               Some (api\<lparr>sceneAppState := (sceneAppState api)\<lparr>selectedElementIds := Some sel\<rparr>\<rparr>)\<rparr>)"

definition local_edit :: "element list \<Rightarrow> SharedView \<Rightarrow> SharedView" where
  "local_edit els s =
     (case excalidrawAPI s of
        None \<Rightarrow> s
      | Some api \<Rightarrow> s\<lparr>excalidrawAPI := Some (api\<lparr>sceneElements := els\<rparr>)\<rparr>)"

section \<open>SharedView: event traces\<close>

datatype client_event =
    CanvasChange int "element list" appState
  | TimersFire int
  | PointerUpdate int "(int \<times> int) \<times> string"
  | RemoteElementUpdate "element list"
  | RemoteCursorMove string collaborator
  | RenderTick
  | ResetSyncing
  | SelectionChange "string \<rightharpoonup> bool"
  | LocalEdit "element list"

fun client_step :: "client_event \<Rightarrow> SharedView \<Rightarrow> effect list \<times> SharedView" where
  "client_step (CanvasChange now els app) s = handleCanvasChange now els app s"
| "client_step (TimersFire now) s = timers_fire now s"
| "client_step (PointerUpdate now p) s = onPointerUpdate now p s"
| "client_step (RemoteElementUpdate els) s = ([], on_element_update els s)"
| "client_step (RemoteCursorMove userId c) s = ([], on_cursor_move userId c s)"
| "client_step RenderTick s = ([], renderLoop s)"
| "client_step ResetSyncing s = ([], reset_isSyncing s)"
| "client_step (SelectionChange sel) s = ([], set_selection sel s)"
| "client_step (LocalEdit els) s = ([], local_edit els s)"

fun client_run :: "client_event list \<Rightarrow> SharedView \<Rightarrow> effect list \<times> SharedView" where
  "client_run [] s = ([], s)"
| "client_run (ev # evs) s =
     (case client_step ev s of
        (fx, s1) \<Rightarrow> (case client_run evs s1 of (fxs, s2) \<Rightarrow> (fx @ fxs, s2)))"

text \<open>Pointer events with their timestamps; every emission is tagged with its time.\<close>

fun pointer_run ::
  "(int \<times> ((int \<times> int) \<times> string)) list \<Rightarrow> SharedView \<Rightarrow> (int \<times> effect) list" where
  "pointer_run [] s = []"
| "pointer_run (ev # evs) s =
     (case onPointerUpdate (fst ev) (snd ev) s of
        (fx, s') \<Rightarrow> map (Pair (fst ev)) fx @ pointer_run evs s')"

fun is_persist_or_broadcast :: "effect \<Rightarrow> bool" where
  "is_persist_or_broadcast (ApiUpdateSharedDrawing tok p) = True"
| "is_persist_or_broadcast (EmitElementUpdate u) = True"
| "is_persist_or_broadcast (EmitCursorMove c) = False"

definition is_api_update :: "effect \<Rightarrow> bool" where
  "is_api_update fx = (case fx of ApiUpdateSharedDrawing tok p \<Rightarrow> True | _ \<Rightarrow> False)"

section \<open>Server: the room registry (index.ts)\<close>

record SocketUser = UserIdentity +
  socketId :: string
  isActive :: bool

datatype server_message =
    PresenceUpdate "SocketUser list"
  | CursorMoveMsg CursorMove
  | ElementUpdateMsg ElementUpdate

text \<open>
  An emission names the sockets it goes to. \<^verbatim>\<open>io.to(room)\<close> reaches every socket that joined
  the room, \<^verbatim>\<open>socket.to(room)\<close> every one but the sending socket; \<^verbatim>\<open>volatile\<close> marks a
  message the transport may drop.
\<close>

record emission =
  recipients :: "string set"
  volatile :: bool
  message :: server_message

record server =
  roomUsers :: "string \<rightharpoonup> SocketUser list"
  socket_rooms :: "string \<Rightarrow> string set"

definition room_of :: "string \<Rightarrow> string" where
  "room_of drawingId = ''drawing_'' @ drawingId"

definition io_to :: "server \<Rightarrow> string \<Rightarrow> server_message \<Rightarrow> emission" where
  "io_to st roomId msg = \<lparr>recipients = socket_rooms st roomId, volatile = False, message = msg\<rparr>"

definition socket_to :: "server \<Rightarrow> string \<Rightarrow> string \<Rightarrow> bool \<Rightarrow> server_message \<Rightarrow> emission" where
  "socket_to st sid roomId vol msg =
     \<lparr>recipients = socket_rooms st roomId - {sid}, volatile = vol, message = msg\<rparr>"

definition socket_join :: "string \<Rightarrow> string \<Rightarrow> server \<Rightarrow> server" where
  "socket_join sid roomId st =
     st\<lparr>socket_rooms := (socket_rooms st)(roomId := insert sid (socket_rooms st roomId))\<rparr>"

definition join_room ::
  "string \<Rightarrow> string \<Rightarrow> UserIdentity \<Rightarrow> server \<Rightarrow> emission list \<times> server" where
  "join_room sid drawingId user st =
     (let roomId = room_of drawingId;
          st1 = socket_join sid roomId st;
          newUser = \<lparr>user_id = user_id user, user_name = user_name user,
                     user_initials = user_initials user, user_color = user_color user,
                     socketId = sid, isActive = True\<rparr>;
          currentUsers = nullish (roomUsers st1 roomId) [];
          filteredUsers = filter (\<lambda>u. user_id u \<noteq> user_id user) currentUsers @ [newUser];
          st2 = st1\<lparr>roomUsers := (roomUsers st1)(roomId \<mapsto> filteredUsers)\<rparr>
      in ([io_to st2 roomId (PresenceUpdate filteredUsers)], st2))"

definition cursor_move :: "string \<Rightarrow> CursorMove \<Rightarrow> server \<Rightarrow> emission list \<times> server" where
  "cursor_move sid data st =
     ([socket_to st sid (room_of (cm_drawingId data)) True (CursorMoveMsg data)], st)"

definition element_update :: "string \<Rightarrow> ElementUpdate \<Rightarrow> server \<Rightarrow> emission list \<times> server" where
  "element_update sid data st =
     ([socket_to st sid (room_of (eu_drawingId data)) False (ElementUpdateMsg data)], st)"

text \<open>\<^verbatim>\<open>users.find(...)\<close> returns the first match, and the assignment changes that object.\<close>

fun set_isActive_first :: "string \<Rightarrow> bool \<Rightarrow> SocketUser list \<Rightarrow> SocketUser list" where
  "set_isActive_first sid a [] = []"
| "set_isActive_first sid a (u # us) =
     (if socketId u = sid then u\<lparr>isActive := a\<rparr> # us else u # set_isActive_first sid a us)"

definition user_activity :: "string \<Rightarrow> string \<Rightarrow> bool \<Rightarrow> server \<Rightarrow> emission list \<times> server" where
  "user_activity sid drawingId a st =
     (let roomId = room_of drawingId
      in case roomUsers st roomId of
           None \<Rightarrow> ([], st)
         | Some users \<Rightarrow>
             (case find (\<lambda>u. socketId u = sid) users of
                None \<Rightarrow> ([], st)
              | Some user \<Rightarrow>
                  let users' = set_isActive_first sid a users;
                      st1 = st\<lparr>roomUsers := (roomUsers st)(roomId \<mapsto> users')\<rparr>
                  in ([io_to st1 roomId (PresenceUpdate users')], st1)))"

section \<open>Server: updating a drawing through a share link (index.ts)\<close>

record ShareLink =
  sl_id :: string
  sl_token :: string
  sl_drawingId :: string
  sl_createdBy :: string
  sl_permission :: string
  sl_expiresAt :: "int option"
  sl_isActive :: bool

text \<open>The JSON columns of a drawing are kept as the text the database stores.\<close>

record DrawingRow =
  d_id :: string
  d_name :: string
  d_elements :: string
  d_appState :: string
  d_files :: string
  d_version :: int

record backend =
  shareLinks :: "string \<rightharpoonup> ShareLink"
  drawings :: "string \<rightharpoonup> DrawingRow"
  drawingsCache :: "string \<rightharpoonup> string"

record update_body =
  b_elements :: "string option"
  b_appState :: "string option"
  b_files :: "string option"

record shared_response =
  r_id :: string
  r_name :: string
  r_elements :: string
  r_appState :: string
  r_files :: string
  r_permission :: string
  r_version :: int

text \<open>
  \<^verbatim>\<open>PUT /shared/:token\<close>. The answer is an error (status and message) or the updated drawing;
  a failing database call ends in the handler's \<^verbatim>\<open>catch\<close>, status 500.
\<close>

definition put_shared ::
  "int \<Rightarrow> string \<Rightarrow> update_body \<Rightarrow> backend \<Rightarrow> (int \<times> string + shared_response) \<times> backend" where
  "put_shared now tok body db =
     (case shareLinks db tok of
        None \<Rightarrow> (Inl (404, ''Shared link not found''), db)
      | Some link \<Rightarrow>
          if \<not> sl_isActive link then
            (Inl (403, ''This share link has been deactivated''), db)
          else if (case sl_expiresAt link of None \<Rightarrow> False | Some e \<Rightarrow> now > e) then
            (Inl (403, ''This share link has expired''), db)
          else if sl_permission link \<noteq> ''edit'' then
            (Inl (403, ''This share link is view-only''), db)
          else
            (case drawings db (sl_drawingId link) of
               None \<Rightarrow> (Inl (500, ''Failed to update shared drawing''), db)
             | Some row \<Rightarrow>
                 let updated = row
                       \<lparr>d_version := d_version row + 1,
                        d_elements := (case b_elements body of None \<Rightarrow> d_elements row | Some v \<Rightarrow> v),
                        d_appState := (case b_appState body of None \<Rightarrow> d_appState row | Some v \<Rightarrow> v),
                        d_files := (case b_files body of None \<Rightarrow> d_files row | Some v \<Rightarrow> v)\<rparr>
                 in (Inr \<lparr>r_id = d_id updated, r_name = d_name updated,
                           r_elements = d_elements updated, r_appState = d_appState updated,
                           r_files = (if d_files updated = [] then ''{}'' else d_files updated),
                           r_permission = sl_permission link, r_version = d_version updated\<rparr>,
                     db\<lparr>drawings := (drawings db)(sl_drawingId link \<mapsto> updated),
                        drawingsCache := Map.empty\<rparr>)))"

section \<open>Auxiliary notions for the proofs\<close>

text \<open>The element a slot holds after one remote element with the same id has been seen.\<close>

definition resolve :: "element \<Rightarrow> element \<Rightarrow> element" where
  "resolve r l = (if remote_wins r l then r else l)"

definition vkey :: "element \<Rightarrow> int \<times> int" where
  "vkey e = (nullish (el_version e) 0, nullish (el_versionNonce e) 0)"

text \<open>What a local element becomes when the remote elements have distinct ids.\<close>

definition pick_remote :: "element list \<Rightarrow> element \<Rightarrow> element" where
  "pick_remote R l =
     (case find (\<lambda>r. el_id r = el_id l) R of None \<Rightarrow> l | Some r \<Rightarrow> resolve r l)"

text \<open>A view-only session in which neither timer holds arguments.\<close>

definition view_idle :: "SharedView \<Rightarrow> bool" where
  "view_idle s =
     ((case drawing s of None \<Rightarrow> False | Some d \<Rightarrow> sd_permission d \<noteq> ''edit'')
      \<and> lastArgs (debouncedSave_timer s) = None
      \<and> lastArgs (broadcastChanges_timer s) = None)"

section \<open>Sample values\<close>

abbreviation sample_el :: "string \<Rightarrow> int \<Rightarrow> int \<Rightarrow> string \<Rightarrow> element" where
  "sample_el k v n p \<equiv>
     \<lparr>el_id = k, el_version = Some v, el_versionNonce = Some n, el_isDeleted = False,
      el_payload = p\<rparr>"

abbreviation sample_app :: "(string \<rightharpoonup> bool) \<Rightarrow> appState" where
  "sample_app sel \<equiv>
     \<lparr>viewBackgroundColor = Some ''#ffffff'', currentItemFontFamily = Some 1, gridSize = None,
      selectedElementIds = Some sel, collaborators = None\<rparr>"

text \<open>A mounted view: first render, drawing loaded, Excalidraw ready, socket connected.\<close>

abbreviation sample_view :: "string \<Rightarrow> element list \<Rightarrow> (string \<rightharpoonup> bool) \<Rightarrow> SharedView" where
  "sample_view perm els sel \<equiv>
     connect_socket
       (setExcalidrawAPI \<lparr>sceneElements = els, sceneAppState = sample_app sel\<rparr>
          (load \<lparr>sd_id = ''D'', sd_name = ''shared'', sd_elements = els,
                 sd_permission = perm, sd_version = 1\<rparr>
             (first_render (Some ''tok'')
                \<lparr>user_id = ''u1'', user_name = ''Ann'', user_initials = ''A'',
                 user_color = ''#ff0000''\<rparr>)))"

abbreviation sample_user :: "string \<Rightarrow> string \<Rightarrow> bool \<Rightarrow> SocketUser" where
  "sample_user uid sid act \<equiv>
     \<lparr>user_id = uid, user_name = ''user'', user_initials = ''U'', user_color = ''#00ff00'',
      socketId = sid, isActive = act\<rparr>"

abbreviation sample_server :: server where
  "sample_server \<equiv>
     \<lparr>roomUsers = [''drawing_D'' \<mapsto> [sample_user ''u1'' ''s1'' True, sample_user ''u2'' ''s2'' True]],
      socket_rooms = (\<lambda>r. if r = ''drawing_D'' then {''s1'', ''s2''} else {})\<rparr>"

lemmas client_defs =
  first_render_def load_def setExcalidrawAPI_def connect_socket_def on_element_update_def
  renderLoop_def drain_elements_def drain_cursors_def dedup_step_def is_selected_def
  set_selection_def reconcileElements_def reconcile_one_def find_local_def remote_wins_def
  nullish_def recordElementVersion_def debounce_init_def Let_def

lemmas timer_defs =
  debounced_def shouldInvoke_def leadingEdge_def trailingEdge_def invokeFunc_def
  timerExpired_def remainingWait_def timer_due_def debounce_opts_def throttle_opts_def

lemmas handler_defs =
  handleCanvasChange_def debouncedSave_def broadcastChanges_def timers_fire_def
  debouncedSave_expired_def broadcastChanges_expired_def run_save_def
  run_broadcast_def save_body_def broadcast_body_def collect_change_def hasElementChanged_def
  local_edit_def onPointerUpdate_def

section \<open>Version tracker: change detection\<close>

text \<open>
  C3. An element whose id the tracker has never seen is reported as changed and its
  (version, versionNonce) pair is recorded, missing fields read as 0. For a seen id the answer
  is true exactly when the stored pair differs from the element's current pair, and the tracker
  is left as it was. Hence a second call on the same element, right after a first call that
  recorded it, answers false.
\<close>

theorem hasElementChanged_spec:
  "(m (el_id e) = None \<longrightarrow>
      hasElementChanged e m =
        (True, m(el_id e \<mapsto> \<lparr>version = nullish (el_version e) 0,
                              versionNonce = nullish (el_versionNonce e) 0\<rparr>)))
   \<and> (\<forall>p. m (el_id e) = Some p \<longrightarrow>
         hasElementChanged e m =
           ((version p, versionNonce p)
              \<noteq> (nullish (el_version e) 0, nullish (el_versionNonce e) 0), m))
   \<and> (m (el_id e) = None \<longrightarrow>
         fst (hasElementChanged e (snd (hasElementChanged e m))) = False)"
  by (simp add: hasElementChanged_def recordElementVersion_def)

text \<open>
  An unseen element with a missing nonce, the same element again, and a newer version of it.
\<close>

theorem hasElementChanged_spec_witness:
  "hasElementChanged \<lparr>el_id = ''a'', el_version = Some 5, el_versionNonce = None,
                      el_isDeleted = False, el_payload = ''r''\<rparr> Map.empty
     = (True, [''a'' \<mapsto> \<lparr>version = 5, versionNonce = 0\<rparr>])
   \<and> hasElementChanged \<lparr>el_id = ''a'', el_version = Some 6, el_versionNonce = None,
                      el_isDeleted = False, el_payload = ''r''\<rparr>
        [''a'' \<mapsto> \<lparr>version = 5, versionNonce = 0\<rparr>]
     = (True, [''a'' \<mapsto> \<lparr>version = 5, versionNonce = 0\<rparr>])
   \<and> fst (hasElementChanged \<lparr>el_id = ''a'', el_version = Some 5, el_versionNonce = None,
                      el_isDeleted = False, el_payload = ''r''\<rparr>
        (snd (hasElementChanged \<lparr>el_id = ''a'', el_version = Some 5, el_versionNonce = None,
                      el_isDeleted = False, el_payload = ''r''\<rparr> Map.empty))) = False"
  using hasElementChanged_spec
    [of Map.empty "\<lparr>el_id = ''a'', el_version = Some 5, el_versionNonce = None,
                      el_isDeleted = False, el_payload = ''r''\<rparr>"]
    hasElementChanged_spec
    [of "[''a'' \<mapsto> \<lparr>version = 5, versionNonce = 0\<rparr>]"
        "\<lparr>el_id = ''a'', el_version = Some 6, el_versionNonce = None,
                      el_isDeleted = False, el_payload = ''r''\<rparr>"]
  by (simp add: nullish_def hasElementChanged_def recordElementVersion_def)

section \<open>Reconciliation: one remote element, one slot\<close>

lemma reconcile_one_Nil: "reconcile_one r [] = [r]"
  by (simp add: reconcile_one_def find_local_def)

lemma reconcile_one_Cons:
  "reconcile_one r (l # ls) =
     (if el_id l = el_id r then resolve r l # ls else l # reconcile_one r ls)"
  by (simp add: reconcile_one_def find_local_def resolve_def split: option.splits)

text \<open>
  The first local element absorbs the remote elements that carry its id; the others only reach
  the rest of the sequence.
\<close>

lemma fold_reconcile_Cons:
  "fold reconcile_one R (l # ls) =
     fold resolve [r\<leftarrow>R. el_id r = el_id l] l
       # fold reconcile_one [r\<leftarrow>R. el_id r \<noteq> el_id l] ls"
proof (induction R arbitrary: l ls)
  case Nil
  show ?case by simp
next
  case (Cons r R)
  show ?case
  proof (cases "el_id r = el_id l")
    case True
    have "el_id (resolve r l) = el_id l"
      using True by (simp add: resolve_def)
    then show ?thesis
      using True Cons.IH [of "resolve r l" ls] by (simp add: reconcile_one_Cons)
  next
    case False
    then show ?thesis
      using Cons.IH [of l "reconcile_one r ls"] by (simp add: reconcile_one_Cons)
  qed
qed

lemma fold_reconcile_Nil:
  "fold reconcile_one (r # R) [] =
     fold resolve [x\<leftarrow>R. el_id x = el_id r] r
       # fold reconcile_one [x\<leftarrow>R. el_id x \<noteq> el_id r] []"
  by (simp add: reconcile_one_Nil fold_reconcile_Cons)

lemma remote_wins_vkey:
  "remote_wins r l = (fst (vkey r) > fst (vkey l) \<or> (fst (vkey r) = fst (vkey l) \<and> snd (vkey r) \<noteq> snd (vkey l)))"
  by (simp add: remote_wins_def vkey_def)

lemma resolve_self: "resolve r r = r"
  by (simp add: resolve_def)

lemma fold_resolve_version_mono:
  "fst (vkey s) \<le> fst (vkey (fold resolve rs s))"
proof (induction rs arbitrary: s)
  case Nil show ?case by simp
next
  case (Cons r rs)
  have "fst (vkey s) \<le> fst (vkey (resolve r s))"
    by (auto simp: resolve_def remote_wins_vkey)
  also have "\<dots> \<le> fst (vkey (fold resolve rs (resolve r s)))"
    by (rule Cons.IH)
  finally show ?case by simp
qed

lemma fold_resolve_same_key:
  "vkey a = vkey b \<Longrightarrow>
     fold resolve rs a = fold resolve rs b
     \<or> (fold resolve rs a = a \<and> fold resolve rs b = b)"
proof (induction rs arbitrary: a b)
  case Nil then show ?case by simp
next
  case (Cons r rs)
  show ?case
  proof (cases "remote_wins r a")
    case True
    then have "remote_wins r b" using Cons.prems by (simp add: remote_wins_vkey)
    with True show ?thesis by (simp add: resolve_def)
  next
    case False
    then have "\<not> remote_wins r b" using Cons.prems by (simp add: remote_wins_vkey)
    with False show ?thesis using Cons.IH [OF Cons.prems] by (simp add: resolve_def)
  qed
qed

text \<open>
  Showing one slot the same remote elements a second time changes nothing.
\<close>

lemma fold_resolve_idem:
  "fold resolve rs (fold resolve rs s) = fold resolve rs s"
proof (induction rs arbitrary: s)
  case Nil show ?case by simp
next
  case (Cons e es)
  define u where "u = resolve e s"
  define t where "t = fold resolve es u"
  have IH: "fold resolve es t = t"
    unfolding t_def by (rule Cons.IH)
  have "fold resolve es (resolve e t) = t"
  proof (cases "remote_wins e t")
    case False
    then show ?thesis using IH by (simp add: resolve_def)
  next
    case True
    show ?thesis
    proof (cases "remote_wins e s")
      case True
      then have "u = e" by (simp add: u_def resolve_def)
      with \<open>remote_wins e t\<close> show ?thesis by (simp add: resolve_def t_def)
    next
      case False
      then have us: "u = s" by (simp add: u_def resolve_def)
      have mono: "fst (vkey s) \<le> fst (vkey t)"
        unfolding t_def us by (rule fold_resolve_version_mono)
      from False True mono have k: "vkey e = vkey s"
        by (auto simp: remote_wins_vkey prod_eq_iff)
      from fold_resolve_same_key [OF k, of es]
      show ?thesis
      proof
        assume "fold resolve es e = fold resolve es s"
        with True show ?thesis by (simp add: resolve_def t_def us)
      next
        assume "fold resolve es e = e \<and> fold resolve es s = s"
        then have "t = s" by (simp add: t_def us)
        with True k show ?thesis by (simp add: remote_wins_vkey)
      qed
    qed
  qed
  then show ?case by (simp add: t_def u_def)
qed

lemma fold_resolve_id:
  "\<forall>r\<in>set rs. el_id r = k \<Longrightarrow> el_id s = k \<Longrightarrow> el_id (fold resolve rs s) = k"
  by (induction rs arbitrary: s) (simp_all add: resolve_def)

section \<open>Reconciliation: per-element outcome\<close>

lemma find_local_None: "(find_local k ls = None) = (\<forall>l\<in>set ls. el_id l \<noteq> k)"
  by (auto simp: find_local_def find_None_iff)

lemma reconcile_one_absent:
  assumes "\<forall>l\<in>set acc. el_id l \<noteq> el_id r"
  shows "reconcile_one r acc = acc @ [r]"
proof -
  have "find_local (el_id r) acc = None"
    using assms by (simp add: find_local_None)
  then show ?thesis by (simp add: reconcile_one_def)
qed

lemma fold_reconcile_absent:
  "distinct (map el_id R) \<Longrightarrow> \<forall>r\<in>set R. \<forall>a\<in>set acc. el_id a \<noteq> el_id r \<Longrightarrow>
     fold reconcile_one R acc = acc @ R"
proof (induction R arbitrary: acc)
  case Nil
  show ?case by simp
next
  case (Cons r R)
  have step: "reconcile_one r acc = acc @ [r]"
    using Cons.prems(2) by (simp add: reconcile_one_absent)
  have "\<forall>x\<in>set R. \<forall>a\<in>set (acc @ [r]). el_id a \<noteq> el_id x"
    using Cons.prems by auto
  with Cons.IH [of "acc @ [r]"] Cons.prems(1) show ?case
    by (simp add: step)
qed

lemma fold_resolve_distinct:
  "distinct (map el_id R) \<Longrightarrow>
     fold resolve [r\<leftarrow>R. el_id r = k] l =
       (case find (\<lambda>r. el_id r = k) R of None \<Rightarrow> l | Some r \<Rightarrow> resolve r l)"
proof (induction R arbitrary: l)
  case Nil
  show ?case by simp
next
  case (Cons r R)
  show ?case
  proof (cases "el_id r = k")
    case True
    with Cons.prems have "\<forall>x\<in>set R. el_id x \<noteq> k" by (force simp: image_iff)
    then have "[x\<leftarrow>R. el_id x = k] = []" by (simp add: filter_empty_conv)
    with True show ?thesis by simp
  next
    case False
    with Cons show ?thesis by simp
  qed
qed

lemma find_filter_weaker:
  "(\<And>x. P x \<Longrightarrow> Q x) \<Longrightarrow> find P (filter Q xs) = find P xs"
  by (induction xs) auto

lemma reconcile_closed_form:
  "distinct (map el_id L) \<Longrightarrow> distinct (map el_id R) \<Longrightarrow>
     fold reconcile_one R L = map (pick_remote R) L @ [r\<leftarrow>R. el_id r \<notin> el_id ` set L]"
proof (induction L arbitrary: R)
  case Nil
  then show ?case by (simp add: fold_reconcile_absent)
next
  case (Cons l ls)
  define Rn where "Rn = [r\<leftarrow>R. el_id r \<noteq> el_id l]"
  have dRn: "distinct (map el_id Rn)"
    unfolding Rn_def using Cons.prems(2) by (rule distinct_map_filter)
  have dls: "distinct (map el_id ls)" and nl: "\<forall>x\<in>set ls. el_id x \<noteq> el_id l"
    using Cons.prems(1) by (force simp: image_iff)+
  have hd: "fold resolve [r\<leftarrow>R. el_id r = el_id l] l = pick_remote R l"
    using Cons.prems(2) by (simp add: fold_resolve_distinct pick_remote_def)
  have "\<And>x. x \<in> set ls \<Longrightarrow> pick_remote Rn x = pick_remote R x"
  proof -
    fix x assume "x \<in> set ls"
    with nl have "el_id x \<noteq> el_id l" by simp
    then have "find (\<lambda>r. el_id r = el_id x) Rn = find (\<lambda>r. el_id r = el_id x) R"
      unfolding Rn_def by (intro find_filter_weaker) auto
    then show "pick_remote Rn x = pick_remote R x" by (simp add: pick_remote_def)
  qed
  then have mp: "map (pick_remote Rn) ls = map (pick_remote R) ls" by simp
  have fl: "[r\<leftarrow>Rn. el_id r \<notin> el_id ` set ls] = [r\<leftarrow>R. el_id r \<notin> el_id ` set (l # ls)]"
    unfolding Rn_def by (auto simp: filter_filter intro: filter_cong)
  have "fold reconcile_one R (l # ls) = pick_remote R l # fold reconcile_one Rn ls"
    unfolding fold_reconcile_Cons [of R] hd Rn_def by (rule refl)
  also have "fold reconcile_one Rn ls = map (pick_remote Rn) ls @ [r\<leftarrow>Rn. el_id r \<notin> el_id ` set ls]"
    using dls dRn by (rule Cons.IH)
  finally show ?case by (simp add: mp fl)
qed

lemma find_distinct_id:
  "distinct (map el_id R) \<Longrightarrow> r \<in> set R \<Longrightarrow> el_id r = k \<Longrightarrow>
     find (\<lambda>x. el_id x = k) R = Some r"
  by (induction R) (auto simp: image_iff)

text \<open>
  C1. Let the local sequence and the remote batch each carry pairwise distinct ids. The result
  keeps every local position. At the position of a local element whose id a remote element
  shares, it holds the remote element when the remote version is greater; at equal versions the
  remote element when its versionNonce differs and the local one otherwise; the local element
  when the remote version is smaller. The remote elements whose id is absent locally follow the
  local positions, in their remote order.
\<close>

theorem reconcileElements_per_element:
  assumes "distinct (map el_id L)" and "distinct (map el_id R)"
  shows "length (reconcileElements L R) = length L + length [r\<leftarrow>R. el_id r \<notin> el_id ` set L]
    \<and> (\<forall>i<length L. \<forall>r\<in>set R. el_id r = el_id (L ! i) \<longrightarrow>
          (nullish (el_version r) 0 > nullish (el_version (L ! i)) 0 \<longrightarrow>
             reconcileElements L R ! i = r)
        \<and> (nullish (el_version r) 0 = nullish (el_version (L ! i)) 0 \<longrightarrow>
             reconcileElements L R ! i =
               (if nullish (el_versionNonce r) 0 \<noteq> nullish (el_versionNonce (L ! i)) 0
                then r else L ! i))
        \<and> (nullish (el_version r) 0 < nullish (el_version (L ! i)) 0 \<longrightarrow>
             reconcileElements L R ! i = L ! i))
    \<and> drop (length L) (reconcileElements L R) = [r\<leftarrow>R. el_id r \<notin> el_id ` set L]"
proof -
  have cf: "reconcileElements L R = map (pick_remote R) L @ [r\<leftarrow>R. el_id r \<notin> el_id ` set L]"
    unfolding reconcileElements_def using assms by (rule reconcile_closed_form)
  have pos: "\<And>i. i < length L \<Longrightarrow> reconcileElements L R ! i = pick_remote R (L ! i)"
    by (simp add: cf nth_append)
  have pick: "\<And>r l. r \<in> set R \<Longrightarrow> el_id r = el_id l \<Longrightarrow> pick_remote R l = resolve r l"
    by (simp add: pick_remote_def find_distinct_id [OF assms(2)])
  show ?thesis
  proof (intro conjI allI impI ballI)
    show "length (reconcileElements L R) = length L + length [r\<leftarrow>R. el_id r \<notin> el_id ` set L]"
      by (simp add: cf)
  next
    show "drop (length L) (reconcileElements L R) = [r\<leftarrow>R. el_id r \<notin> el_id ` set L]"
      by (simp add: cf)
  next
    fix i r
    assume "i < length L" "r \<in> set R" "el_id r = el_id (L ! i)"
    then have *: "reconcileElements L R ! i = resolve r (L ! i)"
      by (simp add: pos pick)
    { assume "nullish (el_version (L ! i)) 0 < nullish (el_version r) 0"
      then show "reconcileElements L R ! i = r"
        by (simp add: * resolve_def remote_wins_def) }
    { assume "nullish (el_version r) 0 = nullish (el_version (L ! i)) 0"
      then show "reconcileElements L R ! i =
               (if nullish (el_versionNonce r) 0 \<noteq> nullish (el_versionNonce (L ! i)) 0
                then r else L ! i)"
        by (simp add: * resolve_def remote_wins_def) }
    { assume "nullish (el_version r) 0 < nullish (el_version (L ! i)) 0"
      then show "reconcileElements L R ! i = L ! i"
        by (simp add: * resolve_def remote_wins_def) }
  qed
qed

text \<open>
  Local a, b, c against remote a (same version, other nonce), b (stale), d (new) and c (newer):
  the result is remote a, local b, remote c, then d.
\<close>

theorem reconcileElements_per_element_witness:
  "distinct (map el_id [sample_el ''a'' 5 10 ''l'', sample_el ''b'' 5 1 ''l'', sample_el ''c'' 2 1 ''l''])
   \<and> distinct (map el_id [sample_el ''a'' 5 99 ''r'', sample_el ''b'' 3 7 ''r'',
                            sample_el ''d'' 1 1 ''r'', sample_el ''c'' 3 1 ''r''])
   \<and> reconcileElements
        [sample_el ''a'' 5 10 ''l'', sample_el ''b'' 5 1 ''l'', sample_el ''c'' 2 1 ''l'']
        [sample_el ''a'' 5 99 ''r'', sample_el ''b'' 3 7 ''r'',
         sample_el ''d'' 1 1 ''r'', sample_el ''c'' 3 1 ''r'']
      = [sample_el ''a'' 5 99 ''r'', sample_el ''b'' 5 1 ''l'', sample_el ''c'' 3 1 ''r'',
         sample_el ''d'' 1 1 ''r'']"
proof -
  let ?L = "[sample_el ''a'' 5 10 ''l'', sample_el ''b'' 5 1 ''l'', sample_el ''c'' 2 1 ''l'']"
  let ?R = "[sample_el ''a'' 5 99 ''r'', sample_el ''b'' 3 7 ''r'',
             sample_el ''d'' 1 1 ''r'', sample_el ''c'' 3 1 ''r'']"
  have dL: "distinct (map el_id ?L)" by simp
  have dR: "distinct (map el_id ?R)" by simp
  note t = reconcileElements_per_element [OF dL dR]
  from t [THEN conjunct1] have len: "length (reconcileElements ?L ?R) = Suc (Suc (Suc (Suc 0)))"
    by simp
  from t [THEN conjunct2, THEN conjunct2]
  have tl: "drop (Suc (Suc (Suc 0))) (reconcileElements ?L ?R) = [sample_el ''d'' 1 1 ''r'']"
    by simp
  note pos = t [THEN conjunct2, THEN conjunct1, rule_format]
  from pos [of 0 "sample_el ''a'' 5 99 ''r''"]
  have n0: "reconcileElements ?L ?R ! 0 = sample_el ''a'' 5 99 ''r''"
    by (simp add: nullish_def)
  from pos [of "Suc 0" "sample_el ''b'' 3 7 ''r''"]
  have n1: "reconcileElements ?L ?R ! Suc 0 = sample_el ''b'' 5 1 ''l''"
    by (simp add: nullish_def)
  from pos [of "Suc (Suc 0)" "sample_el ''c'' 3 1 ''r''"]
  have n2: "reconcileElements ?L ?R ! Suc (Suc 0) = sample_el ''c'' 3 1 ''r''"
    by (simp add: nullish_def)
  have "reconcileElements ?L ?R
          = take (Suc (Suc (Suc 0))) (reconcileElements ?L ?R)
            @ drop (Suc (Suc (Suc 0))) (reconcileElements ?L ?R)"
    by simp
  also have "take (Suc (Suc (Suc 0))) (reconcileElements ?L ?R)
               = [sample_el ''a'' 5 99 ''r'', sample_el ''b'' 5 1 ''l'', sample_el ''c'' 3 1 ''r'']"
    using len by (simp add: take_Suc_conv_app_nth n0 n1 n2)
  finally show ?thesis using dL dR by (simp add: tl)
qed

section \<open>Reconciliation: idempotence\<close>

text \<open>
  C5. Reconciling the result of a reconciliation with the same remote batch once more returns
  that result, for every local sequence and every remote batch (repeated ids included).
\<close>

theorem reconcileElements_idempotent:
  "reconcileElements (reconcileElements L R) R = reconcileElements L R"
proof -
  have "fold reconcile_one R (fold reconcile_one R L) = fold reconcile_one R L"
  proof (induction "length L + length R" arbitrary: L R rule: less_induct)
    case less
    show ?case
    proof (cases L)
      case (Cons l ls)
      define Rl where "Rl = [r\<leftarrow>R. el_id r = el_id l]"
      define Rn where "Rn = [r\<leftarrow>R. el_id r \<noteq> el_id l]"
      define t where "t = fold resolve Rl l"
      have idt: "el_id t = el_id l"
        unfolding t_def by (rule fold_resolve_id) (simp_all add: Rl_def)
      have first: "fold reconcile_one R L = t # fold reconcile_one Rn ls"
        unfolding Cons fold_reconcile_Cons [of R] t_def Rl_def Rn_def by (rule refl)
      have "length ls + length Rn < length L + length R"
        by (simp add: Cons Rn_def le_imp_less_Suc)
      then have IH: "fold reconcile_one Rn (fold reconcile_one Rn ls) = fold reconcile_one Rn ls"
        by (rule less)
      have "fold reconcile_one R (t # fold reconcile_one Rn ls)
              = fold resolve Rl t # fold reconcile_one Rn (fold reconcile_one Rn ls)"
        unfolding fold_reconcile_Cons [of R] idt Rl_def Rn_def by (rule refl)
      also have "\<dots> = t # fold reconcile_one Rn ls"
        by (simp add: IH t_def fold_resolve_idem)
      finally show ?thesis by (simp add: first)
    next
      case Nil
      show ?thesis
      proof (cases R)
        case Nil
        then show ?thesis by simp
      next
        case (Cons r rs)
        define Rl where "Rl = [x\<leftarrow>rs. el_id x = el_id r]"
        define Rn where "Rn = [x\<leftarrow>rs. el_id x \<noteq> el_id r]"
        define t where "t = fold resolve Rl r"
        have idt: "el_id t = el_id r"
          unfolding t_def by (rule fold_resolve_id) (simp_all add: Rl_def)
        have first: "fold reconcile_one R L = t # fold reconcile_one Rn []"
          unfolding Cons \<open>L = []\<close> fold_reconcile_Nil t_def Rl_def Rn_def by (rule refl)
        have "length ([]::element list) + length Rn < length L + length R"
          by (simp add: Cons \<open>L = []\<close> Rn_def le_imp_less_Suc)
        then have IH: "fold reconcile_one Rn (fold reconcile_one Rn []) = fold reconcile_one Rn []"
          by (rule less)
        have slot: "fold resolve (r # Rl) (fold resolve (r # Rl) r) = fold resolve (r # Rl) r"
          by (rule fold_resolve_idem)
        have fl: "[x\<leftarrow>R. el_id x = el_id t] = r # Rl"
          and fn: "[x\<leftarrow>R. el_id x \<noteq> el_id t] = Rn"
          by (simp_all add: Cons idt Rl_def Rn_def)
        have "fold reconcile_one R (t # fold reconcile_one Rn [])
                = fold resolve (r # Rl) t # fold reconcile_one Rn (fold reconcile_one Rn [])"
          unfolding fold_reconcile_Cons [of R] fl fn by (rule refl)
        also have "\<dots> = t # fold reconcile_one Rn []"
          using slot by (simp add: IH t_def resolve_self)
        finally show ?thesis by (simp add: first)
      qed
    qed
  qed
  then show ?thesis by (simp add: reconcileElements_def)
qed

text \<open>
  A batch that holds the id a twice: the second pass reproduces the first result.
\<close>

theorem reconcileElements_idempotent_witness:
  "reconcileElements
     (reconcileElements [sample_el ''a'' 5 10 ''l'', sample_el ''b'' 5 1 ''l'']
        [sample_el ''a'' 5 99 ''r'', sample_el ''a'' 5 10 ''s'', sample_el ''d'' 1 1 ''r''])
     [sample_el ''a'' 5 99 ''r'', sample_el ''a'' 5 10 ''s'', sample_el ''d'' 1 1 ''r'']
   = [sample_el ''a'' 5 10 ''s'', sample_el ''b'' 5 1 ''l'', sample_el ''d'' 1 1 ''r'']"
  using reconcileElements_idempotent
    [of "[sample_el ''a'' 5 10 ''l'', sample_el ''b'' 5 1 ''l'']"
        "[sample_el ''a'' 5 99 ''r'', sample_el ''a'' 5 10 ''s'', sample_el ''d'' 1 1 ''r'']"]
  by (simp add: reconcileElements_def reconcile_one_def find_local_def remote_wins_def nullish_def)

section \<open>Render loop: updates for selected elements\<close>

lemma reconcile_one_other_id:
  "el_id r \<noteq> k \<Longrightarrow>
     filter (\<lambda>e. el_id e = k) (reconcile_one r acc) = filter (\<lambda>e. el_id e = k) acc"
proof (induction acc)
  case Nil
  then show ?case by (simp add: reconcile_one_Nil)
next
  case (Cons l ls)
  then show ?case by (auto simp: reconcile_one_Cons resolve_def)
qed

lemma reconcileElements_other_id:
  "\<forall>r\<in>set R. el_id r \<noteq> k \<Longrightarrow>
     filter (\<lambda>e. el_id e = k) (reconcileElements L R) = filter (\<lambda>e. el_id e = k) L"
  unfolding reconcileElements_def
  by (induction R arbitrary: L) (simp_all add: reconcile_one_other_id)

lemma drain_elements_buffer:
  "elementUpdateBuffer (snd (drain_elements api s)) = []"
  by (simp add: drain_elements_def Let_def)

lemma drain_elements_selected:
  assumes "is_selected (sceneAppState api) k"
  shows "filter (\<lambda>e. el_id e = k) (sceneElements (fst (drain_elements api s)))
           = filter (\<lambda>e. el_id e = k) (sceneElements api)"
proof -
  define R where
    "R = filter (\<lambda>el. \<not> is_selected (sceneAppState api) (el_id el))
           (map snd (fold dedup_step (elementUpdateBuffer s) []))"
  have "\<forall>r\<in>set R. el_id r \<noteq> k" using assms by (auto simp: R_def)
  then have "filter (\<lambda>e. el_id e = k) (reconcileElements (sceneElements api) R)
               = filter (\<lambda>e. el_id e = k) (sceneElements api)"
    by (rule reconcileElements_other_id)
  then show ?thesis
    by (simp add: drain_elements_def Let_def R_def)
qed

lemma drain_elements_empty:
  "elementUpdateBuffer s = [] \<Longrightarrow> drain_elements api s = (api, s)"
  by (simp add: drain_elements_def)

lemma drain_cursors_frame:
  "sceneElements (fst (drain_cursors api s)) = sceneElements api"
  "elementUpdateBuffer (snd (drain_cursors api s)) = elementUpdateBuffer s"
  "selectedElementIds (sceneAppState (fst (drain_cursors api s))) = selectedElementIds (sceneAppState api)"
  by (simp_all add: drain_cursors_def)

lemma renderLoop_ready:
  "excalidrawAPI s = Some api \<Longrightarrow>
     renderLoop s =
       (snd (drain_cursors (fst (drain_elements api s)) (snd (drain_elements api s))))
         \<lparr>excalidrawAPI := Some (fst (drain_cursors (fst (drain_elements api s)) (snd (drain_elements api s))))\<rparr>"
  by (simp add: renderLoop_def split: prod.splits)

text \<open>
  C2, as stated, fails: y is selected when a remote update for y arrives; the next tick empties
  the buffer and leaves the scene alone; after y has left the selection a further tick still
  shows the old y. The update is gone.
\<close>

theorem selected_update_never_applied:
  "elementUpdateBuffer
     (renderLoop (on_element_update [sample_el ''y'' 2 7 ''remote'']
        (sample_view ''edit'' [sample_el ''y'' 1 1 ''local''] [''y'' \<mapsto> True]))) = []
   \<and> map_option sceneElements (excalidrawAPI
        (renderLoop (set_selection Map.empty
           (renderLoop (on_element_update [sample_el ''y'' 2 7 ''remote'']
              (sample_view ''edit'' [sample_el ''y'' 1 1 ''local''] [''y'' \<mapsto> True]))))))
       = Some [sample_el ''y'' 1 1 ''local'']"
  by (simp add: client_defs)

text \<open>
  C2, amended. An incoming element-update is appended to the buffer. A tick of the render loop
  (with Excalidraw ready) leaves the buffer empty and leaves every scene element whose id is
  selected as it was; a tick that finds the buffer empty leaves the scene elements as they
  were. So an update for a selected id is removed from the buffer without being applied, and no
  later tick applies it.
\<close>

theorem selected_update_dropped:
  assumes "excalidrawAPI s = Some api"
  shows "elementUpdateBuffer (on_element_update els s) = elementUpdateBuffer s @ els
    \<and> elementUpdateBuffer (renderLoop s) = []
    \<and> (\<exists>api'. excalidrawAPI (renderLoop s) = Some api'
          \<and> (\<forall>k. is_selected (sceneAppState api) k \<longrightarrow>
                filter (\<lambda>e. el_id e = k) (sceneElements api')
                  = filter (\<lambda>e. el_id e = k) (sceneElements api)))
    \<and> (elementUpdateBuffer s = [] \<longrightarrow>
          map_option sceneElements (excalidrawAPI (renderLoop s)) = Some (sceneElements api))"
proof (intro conjI)
  show "elementUpdateBuffer (on_element_update els s) = elementUpdateBuffer s @ els"
    by (simp add: on_element_update_def)
  show "elementUpdateBuffer (renderLoop s) = []"
    by (simp add: renderLoop_ready [OF assms] drain_cursors_frame drain_elements_buffer)
  show "\<exists>api'. excalidrawAPI (renderLoop s) = Some api'
          \<and> (\<forall>k. is_selected (sceneAppState api) k \<longrightarrow>
                filter (\<lambda>e. el_id e = k) (sceneElements api')
                  = filter (\<lambda>e. el_id e = k) (sceneElements api))"
    by (simp add: renderLoop_ready [OF assms] drain_cursors_frame drain_elements_selected)
  show "elementUpdateBuffer s = [] \<longrightarrow>
          map_option sceneElements (excalidrawAPI (renderLoop s)) = Some (sceneElements api)"
    by (simp add: renderLoop_ready [OF assms] drain_cursors_frame drain_elements_empty)
qed

text \<open>
  Updates for y (selected) and z arrive together: z is merged, y is not, the buffer is empty.
\<close>

theorem selected_update_dropped_witness:
  "excalidrawAPI (on_element_update [sample_el ''y'' 2 7 ''remote'', sample_el ''z'' 2 3 ''remote'']
        (sample_view ''edit'' [sample_el ''y'' 1 1 ''local'', sample_el ''z'' 1 1 ''local'']
           [''y'' \<mapsto> True]))
     = Some \<lparr>sceneElements = [sample_el ''y'' 1 1 ''local'', sample_el ''z'' 1 1 ''local''],
             sceneAppState = sample_app [''y'' \<mapsto> True]\<rparr>
   \<and> elementUpdateBuffer
       (renderLoop (on_element_update [sample_el ''y'' 2 7 ''remote'', sample_el ''z'' 2 3 ''remote'']
          (sample_view ''edit'' [sample_el ''y'' 1 1 ''local'', sample_el ''z'' 1 1 ''local'']
             [''y'' \<mapsto> True]))) = []
   \<and> map_option sceneElements (excalidrawAPI
       (renderLoop (on_element_update [sample_el ''y'' 2 7 ''remote'', sample_el ''z'' 2 3 ''remote'']
          (sample_view ''edit'' [sample_el ''y'' 1 1 ''local'', sample_el ''z'' 1 1 ''local'']
             [''y'' \<mapsto> True]))))
     = Some [sample_el ''y'' 1 1 ''local'', sample_el ''z'' 2 3 ''remote'']"
proof -
  let ?s = "on_element_update [sample_el ''y'' 2 7 ''remote'', sample_el ''z'' 2 3 ''remote'']
        (sample_view ''edit'' [sample_el ''y'' 1 1 ''local'', sample_el ''z'' 1 1 ''local'']
           [''y'' \<mapsto> True])"
  let ?api = "\<lparr>sceneElements = [sample_el ''y'' 1 1 ''local'', sample_el ''z'' 1 1 ''local''],
             sceneAppState = sample_app [''y'' \<mapsto> True]\<rparr>"
  have api: "excalidrawAPI ?s = Some ?api"
    by (simp add: client_defs)
  have scene: "map_option sceneElements (excalidrawAPI (renderLoop ?s))
     = Some [sample_el ''y'' 1 1 ''local'', sample_el ''z'' 2 3 ''remote'']"
    by (simp add: client_defs)
  from selected_update_dropped [OF api, of "[]"] have "elementUpdateBuffer (renderLoop ?s) = []"
    by blast
  with api scene show ?thesis by simp
qed

section \<open>The view-only gate\<close>

lemma timerExpired_idle:
  "lastArgs st = None \<Longrightarrow>
     fst (timerExpired opts t st) = None \<and> lastArgs (snd (timerExpired opts t st)) = None"
  by (simp add: timerExpired_def trailingEdge_def Let_def)

lemma handleCanvasChange_view:
  assumes "drawing s = Some d" and "sd_permission d \<noteq> ''edit''"
  shows "fst (handleCanvasChange now els app s) = []"
    and "debouncedSave_timer (snd (handleCanvasChange now els app s)) = debouncedSave_timer s"
    and "broadcastChanges_timer (snd (handleCanvasChange now els app s)) = broadcastChanges_timer s"
    and "drawing (snd (handleCanvasChange now els app s)) = drawing s"
  using assms by (simp_all add: handleCanvasChange_def Let_def)

lemma timers_fire_idle:
  assumes "lastArgs (debouncedSave_timer s) = None"
    and "lastArgs (broadcastChanges_timer s) = None"
  shows "fst (timers_fire now s) = []"
    and "lastArgs (debouncedSave_timer (snd (timers_fire now s))) = None"
    and "lastArgs (broadcastChanges_timer (snd (timers_fire now s))) = None"
    and "drawing (snd (timers_fire now s)) = drawing s"
  using assms
    timerExpired_idle [OF assms(1), of "debounce_opts 1500" now]
    timerExpired_idle [OF assms(2), of "throttle_opts 50 True True" now]
  by (simp_all add: timers_fire_def debouncedSave_expired_def broadcastChanges_expired_def
        run_save_def run_broadcast_def split_def)

lemma onPointerUpdate_frame:
  "filter is_persist_or_broadcast (fst (onPointerUpdate now p s)) = []"
  "debouncedSave_timer (snd (onPointerUpdate now p s)) = debouncedSave_timer s"
  "broadcastChanges_timer (snd (onPointerUpdate now p s)) = broadcastChanges_timer s"
  "drawing (snd (onPointerUpdate now p s)) = drawing s"
  "debouncedSave_closure (snd (onPointerUpdate now p s)) = debouncedSave_closure s"
  by (simp_all add: onPointerUpdate_def split: option.splits)

lemma renderLoop_frame:
  "debouncedSave_timer (renderLoop s) = debouncedSave_timer s"
  "broadcastChanges_timer (renderLoop s) = broadcastChanges_timer s"
  "drawing (renderLoop s) = drawing s"
  "debouncedSave_closure (renderLoop s) = debouncedSave_closure s"
  by (simp_all add: renderLoop_def drain_elements_def drain_cursors_def Let_def
        split: option.splits)

lemma passive_frame:
  "debouncedSave_timer (on_element_update els s) = debouncedSave_timer s"
  "broadcastChanges_timer (on_element_update els s) = broadcastChanges_timer s"
  "drawing (on_element_update els s) = drawing s"
  "debouncedSave_closure (on_element_update els s) = debouncedSave_closure s"
  "debouncedSave_timer (on_cursor_move u c s) = debouncedSave_timer s"
  "broadcastChanges_timer (on_cursor_move u c s) = broadcastChanges_timer s"
  "drawing (on_cursor_move u c s) = drawing s"
  "debouncedSave_closure (on_cursor_move u c s) = debouncedSave_closure s"
  "debouncedSave_timer (reset_isSyncing s) = debouncedSave_timer s"
  "broadcastChanges_timer (reset_isSyncing s) = broadcastChanges_timer s"
  "drawing (reset_isSyncing s) = drawing s"
  "debouncedSave_closure (reset_isSyncing s) = debouncedSave_closure s"
  "debouncedSave_timer (set_selection sel s) = debouncedSave_timer s"
  "broadcastChanges_timer (set_selection sel s) = broadcastChanges_timer s"
  "drawing (set_selection sel s) = drawing s"
  "debouncedSave_closure (set_selection sel s) = debouncedSave_closure s"
  "debouncedSave_timer (local_edit els s) = debouncedSave_timer s"
  "broadcastChanges_timer (local_edit els s) = broadcastChanges_timer s"
  "drawing (local_edit els s) = drawing s"
  "debouncedSave_closure (local_edit els s) = debouncedSave_closure s"
  by (simp_all add: on_element_update_def on_cursor_move_def reset_isSyncing_def
        set_selection_def local_edit_def split: option.splits)

lemma client_step_view_idle:
  assumes "view_idle s"
  shows "view_idle (snd (client_step ev s))
         \<and> filter is_persist_or_broadcast (fst (client_step ev s)) = []"
proof -
  from assms obtain d where d: "drawing s = Some d" "sd_permission d \<noteq> ''edit''"
    and t: "lastArgs (debouncedSave_timer s) = None" "lastArgs (broadcastChanges_timer s) = None"
    by (auto simp: view_idle_def split: option.splits)
  show ?thesis
  proof (cases ev)
    case (CanvasChange now els app)
    then show ?thesis
      using d t handleCanvasChange_view [OF d, of now els app]
      by (simp add: view_idle_def)
  next
    case (TimersFire now)
    then show ?thesis
      using d t timers_fire_idle [OF t, of now]
      by (simp add: view_idle_def)
  next
    case (PointerUpdate now p)
    then show ?thesis
      using d t by (simp add: view_idle_def onPointerUpdate_frame)
  qed (use d t in \<open>simp_all add: view_idle_def passive_frame renderLoop_frame\<close>)
qed

lemma client_run_view_idle:
  "view_idle s \<Longrightarrow> filter is_persist_or_broadcast (fst (client_run evs s)) = []"
proof (induction evs arbitrary: s)
  case Nil
  show ?case by simp
next
  case (Cons ev evs)
  obtain fx s1 where st: "client_step ev s = (fx, s1)" by (cases "client_step ev s")
  obtain fxs s2 where ru: "client_run evs s1 = (fxs, s2)" by (cases "client_run evs s1")
  from client_step_view_idle [OF Cons.prems, of ev] st
  have "view_idle s1" "filter is_persist_or_broadcast fx = []" by simp_all
  with Cons.IH [of s1] ru show ?case by (simp add: st)
qed

lemma put_shared_view_only:
  "shareLinks db tok = Some link \<Longrightarrow> sl_permission link \<noteq> ''edit'' \<Longrightarrow>
     snd (put_shared now tok body db) = db
     \<and> (\<exists>msg. fst (put_shared now tok body db) = Inl (403, msg))"
  by (simp add: put_shared_def)

text \<open>
  C4. In a session whose permission is not "edit" (that is, "view"), with no arguments pending
  in either timer: a canvas change produces no output and reaches neither the debounced save
  nor the throttled broadcast; over any sequence of events the component never calls the
  store's update and never emits an element-update. On the server, an update through a share
  link whose permission is not "edit" is answered with status 403 and the database is left as
  it was.
\<close>

theorem view_permission_gate:
  assumes "drawing s = Some d" and "sd_permission d \<noteq> ''edit''"
    and "lastArgs (debouncedSave_timer s) = None"
    and "lastArgs (broadcastChanges_timer s) = None"
    and "shareLinks db tok = Some link" and "sl_permission link \<noteq> ''edit''"
  shows "fst (handleCanvasChange now els app s) = []
    \<and> debouncedSave_timer (snd (handleCanvasChange now els app s)) = debouncedSave_timer s
    \<and> broadcastChanges_timer (snd (handleCanvasChange now els app s)) = broadcastChanges_timer s
    \<and> filter is_persist_or_broadcast (fst (client_run evs s)) = []
    \<and> snd (put_shared t tok body db) = db
    \<and> (\<exists>msg. fst (put_shared t tok body db) = Inl (403, msg))"
proof -
  have "view_idle s" using assms(1-4) by (simp add: view_idle_def)
  then have "filter is_persist_or_broadcast (fst (client_run evs s)) = []"
    by (rule client_run_view_idle)
  then show ?thesis
    using handleCanvasChange_view [OF assms(1,2), of now els app]
      put_shared_view_only [OF assms(5,6), of t body]
    by simp
qed

text \<open>
  A view-only session in which the user nevertheless edits, and a view-only link used for an
  update.
\<close>

theorem view_permission_gate_witness:
  "fst (client_run
     [LocalEdit [sample_el ''x'' 2 5 ''edit''], CanvasChange 0 [] (sample_app Map.empty),
      TimersFire 50, TimersFire 1500]
     (sample_view ''view'' [sample_el ''x'' 1 1 ''edit''] Map.empty)) = []
   \<and> put_shared 0 ''tok'' \<lparr>b_elements = Some ''[]'', b_appState = None, b_files = None\<rparr>
        \<lparr>shareLinks = [''tok'' \<mapsto> \<lparr>sl_id = ''l1'', sl_token = ''tok'', sl_drawingId = ''D'',
                                     sl_createdBy = ''owner'', sl_permission = ''view'',
                                     sl_expiresAt = None, sl_isActive = True\<rparr>],
         drawings = [''D'' \<mapsto> \<lparr>d_id = ''D'', d_name = ''shared'', d_elements = ''[1]'',
                                d_appState = ''{}'', d_files = ''{}'', d_version = 1\<rparr>],
         drawingsCache = Map.empty\<rparr>
     = (Inl (403, ''This share link is view-only''),
        \<lparr>shareLinks = [''tok'' \<mapsto> \<lparr>sl_id = ''l1'', sl_token = ''tok'', sl_drawingId = ''D'',
                                     sl_createdBy = ''owner'', sl_permission = ''view'',
                                     sl_expiresAt = None, sl_isActive = True\<rparr>],
         drawings = [''D'' \<mapsto> \<lparr>d_id = ''D'', d_name = ''shared'', d_elements = ''[1]'',
                                d_appState = ''{}'', d_files = ''{}'', d_version = 1\<rparr>],
         drawingsCache = Map.empty\<rparr>)"
proof -
  let ?s = "sample_view ''view'' [sample_el ''x'' 1 1 ''edit''] Map.empty"
  let ?d = "\<lparr>sd_id = ''D'', sd_name = ''shared'', sd_elements = [sample_el ''x'' 1 1 ''edit''],
             sd_permission = ''view'', sd_version = 1\<rparr>"
  let ?link = "\<lparr>sl_id = ''l1'', sl_token = ''tok'', sl_drawingId = ''D'',
                 sl_createdBy = ''owner'', sl_permission = ''view'',
                 sl_expiresAt = None, sl_isActive = True\<rparr>"
  let ?db = "\<lparr>shareLinks = [''tok'' \<mapsto> ?link],
         drawings = [''D'' \<mapsto> \<lparr>d_id = ''D'', d_name = ''shared'', d_elements = ''[1]'',
                                d_appState = ''{}'', d_files = ''{}'', d_version = 1\<rparr>],
         drawingsCache = Map.empty\<rparr>"
  have h1: "drawing ?s = Some ?d" by (simp add: client_defs)
  have h2: "sd_permission ?d \<noteq> ''edit''" by simp
  have h3: "lastArgs (debouncedSave_timer ?s) = None" by (simp add: client_defs)
  have h4: "lastArgs (broadcastChanges_timer ?s) = None" by (simp add: client_defs)
  have h5: "shareLinks ?db ''tok'' = Some ?link" by simp
  have h6: "sl_permission ?link \<noteq> ''edit''" by simp
  note g = view_permission_gate [OF h1 h2 h3 h4 h5 h6,
      of 0 "[]" "sample_app Map.empty"
         "[LocalEdit [sample_el ''x'' 2 5 ''edit''], CanvasChange 0 [] (sample_app Map.empty),
           TimersFire 50, TimersFire 1500]"
         0 "\<lparr>b_elements = Some ''[]'', b_appState = None, b_files = None\<rparr>"]
  have run: "fst (client_run
     [LocalEdit [sample_el ''x'' 2 5 ''edit''], CanvasChange 0 [] (sample_app Map.empty),
      TimersFire 50, TimersFire 1500] ?s) = []"
    by (simp add: client_defs timer_defs handler_defs)
  have put: "fst (put_shared 0 ''tok'' \<lparr>b_elements = Some ''[]'', b_appState = None, b_files = None\<rparr> ?db)
               = Inl (403, ''This share link is view-only'')"
    by (simp add: put_shared_def)
  from g have "snd (put_shared 0 ''tok'' \<lparr>b_elements = Some ''[]'', b_appState = None, b_files = None\<rparr> ?db) = ?db"
    by blast
  with run put show ?thesis by (simp add: prod_eq_iff)
qed

section \<open>Autosave: what the debounced save does\<close>

text \<open>
  With an environment that holds an editable drawing, the body sends the reduced payload.
\<close>

lemma save_body_payload:
  "env_token env = Some tok \<Longrightarrow> tok \<noteq> [] \<Longrightarrow> env_drawing env = Some d \<Longrightarrow>
     sd_permission d = ''edit'' \<Longrightarrow>
     save_body env (els, app) =
       [ApiUpdateSharedDrawing tok
          \<lparr>sp_elements = filter (\<lambda>e. \<not> el_isDeleted e) els,
           sp_appState = \<lparr>saved_viewBackgroundColor = viewBackgroundColor app,
                          saved_currentItemFontFamily = currentItemFontFamily app,
                          saved_gridSize = gridSize app\<rparr>\<rparr>]"
  by (simp add: save_body_def)

lemma run_save_stale:
  "env_drawing (debouncedSave_closure s) = None \<Longrightarrow> run_save fired s = []"
  by (simp add: run_save_def save_body_def split: option.splits)

lemma run_broadcast_frame:
  "filter is_api_update (fst (run_broadcast fired s)) = []"
  "debouncedSave_closure (snd (run_broadcast fired s)) = debouncedSave_closure s"
  by (simp_all add: run_broadcast_def broadcast_body_def is_api_update_def split_def
        split: option.splits)

lemma debouncedSave_stale:
  "env_drawing (debouncedSave_closure s) = None \<Longrightarrow> fst (debouncedSave now a s) = []"
  "debouncedSave_closure (snd (debouncedSave now a s)) = debouncedSave_closure s"
  by (simp_all add: debouncedSave_def run_save_stale split_def)

lemma broadcastChanges_frame:
  "filter is_api_update (fst (broadcastChanges now els s)) = []"
  "debouncedSave_closure (snd (broadcastChanges now els s)) = debouncedSave_closure s"
  by (simp_all add: broadcastChanges_def run_broadcast_frame split_def)

lemma handleCanvasChange_stale:
  assumes "env_drawing (debouncedSave_closure s) = None"
  shows "filter is_api_update (fst (handleCanvasChange now els app s)) = []"
    and "debouncedSave_closure (snd (handleCanvasChange now els app s)) = debouncedSave_closure s"
  using assms
  by (simp_all add: handleCanvasChange_def Let_def split_def debouncedSave_stale
        broadcastChanges_frame split: option.splits)

lemma timers_fire_stale:
  assumes "env_drawing (debouncedSave_closure s) = None"
  shows "filter is_api_update (fst (timers_fire now s)) = []"
    and "debouncedSave_closure (snd (timers_fire now s)) = debouncedSave_closure s"
  using assms
  by (simp_all add: timers_fire_def debouncedSave_expired_def broadcastChanges_expired_def
        split_def run_save_stale run_broadcast_frame)

lemma client_step_stale:
  assumes "env_drawing (debouncedSave_closure s) = None"
  shows "filter is_api_update (fst (client_step ev s)) = []
         \<and> debouncedSave_closure (snd (client_step ev s)) = debouncedSave_closure s"
proof (cases ev)
  case (CanvasChange now els app)
  then show ?thesis using handleCanvasChange_stale [OF assms] by simp
next
  case (TimersFire now)
  then show ?thesis using timers_fire_stale [OF assms] by simp
next
  case (PointerUpdate now p)
  then show ?thesis
    by (simp add: onPointerUpdate_def is_api_update_def split: option.splits)
qed (simp_all add: passive_frame renderLoop_frame)

text \<open>
  The environment captured in the first render holds no drawing, and nothing replaces it: the
  mounted component never calls the store's update.
\<close>

lemma stale_closure_never_persists:
  "env_drawing (debouncedSave_closure s) = None \<Longrightarrow>
     filter is_api_update (fst (client_run evs s)) = []"
proof (induction evs arbitrary: s)
  case Nil
  show ?case by simp
next
  case (Cons ev evs)
  obtain fx s1 where st: "client_step ev s = (fx, s1)" by (cases "client_step ev s")
  obtain fxs s2 where ru: "client_run evs s1 = (fxs, s2)" by (cases "client_run evs s1")
  from client_step_stale [OF Cons.prems, of ev] st Cons.prems
  have a: "filter is_api_update fx = []"
    and c: "env_drawing (debouncedSave_closure s1) = None" by simp_all
  from Cons.IH [OF c] ru have "filter is_api_update fxs = []" by simp
  with a show ?case by (simp add: st ru)
qed

lemma mounted_closure_is_stale:
  "env_drawing (debouncedSave_closure
     (connect_socket (setExcalidrawAPI api (load d (first_render tok ident))))) = None"
  by (simp add: connect_socket_def setExcalidrawAPI_def load_def first_render_def)

text \<open>
  C8. An editable session; three edits within 20 ms; the throttle fires at 50 ms and the
  debounce timer at 1500 ms and 1520 ms. The two element-update broadcasts go out; the
  debounced save is invoked at 1520 ms (its last invocation time) and returns without a call to
  the store's update, because the drawing it reads is the one of the first render.
\<close>

theorem debouncedSave_stale_closure:
  "fst (client_run
     [LocalEdit [sample_el ''x'' 2 5 ''edit''], CanvasChange 0 [] (sample_app Map.empty),
      LocalEdit [sample_el ''x'' 3 6 ''edit''], CanvasChange 10 [] (sample_app Map.empty),
      LocalEdit [sample_el ''x'' 4 8 ''edit''], CanvasChange 20 [] (sample_app Map.empty),
      TimersFire 50, TimersFire 1500, TimersFire 1520, TimersFire 5000]
     (sample_view ''edit'' [sample_el ''x'' 1 1 ''edit''] Map.empty))
   = [EmitElementUpdate \<lparr>eu_drawingId = ''D'', eu_elements = [sample_el ''x'' 2 5 ''edit''],
                          eu_userId = ''u1''\<rparr>,
      EmitElementUpdate \<lparr>eu_drawingId = ''D'', eu_elements = [sample_el ''x'' 4 8 ''edit''],
                          eu_userId = ''u1''\<rparr>]
   \<and> lastInvokeTime (debouncedSave_timer (snd (client_run
     [LocalEdit [sample_el ''x'' 2 5 ''edit''], CanvasChange 0 [] (sample_app Map.empty),
      LocalEdit [sample_el ''x'' 3 6 ''edit''], CanvasChange 10 [] (sample_app Map.empty),
      LocalEdit [sample_el ''x'' 4 8 ''edit''], CanvasChange 20 [] (sample_app Map.empty),
      TimersFire 50, TimersFire 1500, TimersFire 1520, TimersFire 5000]
     (sample_view ''edit'' [sample_el ''x'' 1 1 ''edit''] Map.empty)))) = 1520"
  by (simp add: client_defs timer_defs handler_defs)

section \<open>Cursor throttle\<close>

lemma onPointerUpdate_cases:
  "onPointerUpdate now p s = ([], s)
   \<or> (\<exists>m. onPointerUpdate now p s = ([m], s\<lparr>lastCursorEmit := now\<rparr>)
          \<and> now - lastCursorEmit s > 33)"
  by (simp add: onPointerUpdate_def split: option.splits)

lemma pointer_run_gaps:
  "sorted_wrt (\<lambda>a b. fst b - fst a > 33) (pointer_run evs s)
   \<and> (\<forall>x\<in>set (pointer_run evs s). fst x - lastCursorEmit s > 33 \<and> fst x \<in> fst ` set evs)"
proof (induction evs arbitrary: s)
  case Nil
  show ?case by simp
next
  case (Cons ev evs)
  from onPointerUpdate_cases [of "fst ev" "snd ev" s]
  show ?case
  proof
    assume "onPointerUpdate (fst ev) (snd ev) s = ([], s)"
    then show ?thesis using Cons.IH [of s] by auto
  next
    assume "\<exists>m. onPointerUpdate (fst ev) (snd ev) s = ([m], s\<lparr>lastCursorEmit := fst ev\<rparr>)
              \<and> fst ev - lastCursorEmit s > 33"
    then obtain m where
      m: "onPointerUpdate (fst ev) (snd ev) s = ([m], s\<lparr>lastCursorEmit := fst ev\<rparr>)"
      and gap: "fst ev - lastCursorEmit s > 33" by blast
    from Cons.IH [of "s\<lparr>lastCursorEmit := fst ev\<rparr>"]
    have ih1: "sorted_wrt (\<lambda>a b. fst b - fst a > 33) (pointer_run evs (s\<lparr>lastCursorEmit := fst ev\<rparr>))"
      and ih2: "\<forall>x\<in>set (pointer_run evs (s\<lparr>lastCursorEmit := fst ev\<rparr>)).
                  fst x - fst ev > 33 \<and> fst x \<in> fst ` set evs"
      by simp_all
    show ?thesis using m gap ih1 ih2 by (auto simp: image_iff)
  qed
qed

lemma gapped_within_50:
  fixes xs :: "(int \<times> 'a) list"
  assumes "sorted_wrt (\<lambda>a b. fst b - fst a > 33) xs"
    and "\<forall>x\<in>set xs. t0 \<le> fst x \<and> fst x \<le> t0 + 50"
  shows "length xs \<le> 2"
proof (rule ccontr)
  assume "\<not> length xs \<le> 2"
  then obtain a b c rest where xs: "xs = a # b # c # rest"
    by (cases xs; cases "tl xs"; cases "tl (tl xs)") auto
  from assms(1) have "fst b - fst a > 33" "fst c - fst b > 33" by (auto simp: xs)
  moreover from assms(2) have "t0 \<le> fst a" "fst c \<le> t0 + 50" by (auto simp: xs)
  ultimately show False by arith
qed

text \<open>
  C9. A pointer event that comes 33 ms or less after the last emission emits nothing and leaves
  the state as it was; an event emits at most one message; in any run two emissions are more
  than 33 ms apart; and when all events of a run lie within 50 ms, at most two messages are
  emitted.
\<close>

theorem cursor_throttle:
  "(now - lastCursorEmit s \<le> 33 \<longrightarrow> onPointerUpdate now p s = ([], s))
   \<and> length (fst (onPointerUpdate now p s)) \<le> 1
   \<and> sorted_wrt (\<lambda>a b. fst b - fst a > 33) (pointer_run evs s)
   \<and> ((\<forall>ev\<in>set evs. t0 \<le> fst ev \<and> fst ev \<le> t0 + 50) \<longrightarrow> length (pointer_run evs s) \<le> 2)"
proof (intro conjI impI)
  assume "now - lastCursorEmit s \<le> 33"
  then show "onPointerUpdate now p s = ([], s)"
    by (simp add: onPointerUpdate_def split: option.splits)
next
  show "length (fst (onPointerUpdate now p s)) \<le> 1"
    using onPointerUpdate_cases [of now p s] by auto
next
  show "sorted_wrt (\<lambda>a b. fst b - fst a > 33) (pointer_run evs s)"
    using pointer_run_gaps [of evs s] by simp
next
  assume win: "\<forall>ev\<in>set evs. t0 \<le> fst ev \<and> fst ev \<le> t0 + 50"
  have "\<forall>x\<in>set (pointer_run evs s). t0 \<le> fst x \<and> fst x \<le> t0 + 50"
  proof
    fix x assume "x \<in> set (pointer_run evs s)"
    with pointer_run_gaps [of evs s] have "fst x \<in> fst ` set evs" by blast
    then obtain ev where "ev \<in> set evs" "fst x = fst ev" by (auto simp: image_iff)
    with win show "t0 \<le> fst x \<and> fst x \<le> t0 + 50" by simp
  qed
  with pointer_run_gaps [of evs s] show "length (pointer_run evs s) \<le> 2"
    by (intro gapped_within_50 [of _ t0]) simp_all
qed

text \<open>
  One hundred events within 50 ms; and four events of which the second and fourth are dropped.
\<close>

theorem cursor_throttle_witness:
  "length (pointer_run (map (\<lambda>i. (1000 + int i div 2, ((int i, 0), ''up''))) [0..<100])
     (sample_view ''edit'' [] Map.empty)) \<le> 2
   \<and> map fst (pointer_run [(1000, ((0, 0), ''up'')), (1033, ((1, 0), ''up'')),
                              (1034, ((2, 0), ''up'')), (1050, ((3, 0), ''up''))]
        (sample_view ''edit'' [] Map.empty)) = [1000, 1034]"
proof -
  let ?s = "sample_view ''edit'' [] Map.empty"
  let ?evs = "map (\<lambda>i. (1000 + int i div 2, ((int i, 0), ''up''))) [0..<100]"
  have win: "\<forall>ev\<in>set ?evs. 1000 \<le> fst ev \<and> fst ev \<le> 1000 + 50"
    by auto
  from cursor_throttle [of 0 ?s "((0, 0), ''up'')" ?evs 1000] win
  have "length (pointer_run ?evs ?s) \<le> 2" by blast
  moreover have "map fst (pointer_run [(1000, ((0, 0), ''up'')), (1033, ((1, 0), ''up'')),
                              (1034, ((2, 0), ''up'')), (1050, ((3, 0), ''up''))] ?s) = [1000, 1034]"
    by (simp add: client_defs onPointerUpdate_def)
  ultimately show ?thesis by simp
qed

section \<open>Server: joining a room\<close>

text \<open>
  C6. After a join-room message the room of that drawing has a roster in which exactly one
  participant carries the joining user's id, namely the new one (active, with the joining
  socket); the other participants are those that were there before; and one presence-update
  with this roster goes to every socket of the room, the joining one included.
\<close>

theorem join_room_roster:
  "\<exists>roster.
      roomUsers (snd (join_room sid drawingId user st)) (room_of drawingId) = Some roster
    \<and> filter (\<lambda>u. user_id u = user_id user) roster =
        [\<lparr>user_id = user_id user, user_name = user_name user,
          user_initials = user_initials user, user_color = user_color user,
          socketId = sid, isActive = True\<rparr>]
    \<and> filter (\<lambda>u. user_id u \<noteq> user_id user) roster =
        filter (\<lambda>u. user_id u \<noteq> user_id user)
          (nullish (roomUsers st (room_of drawingId)) [])
    \<and> fst (join_room sid drawingId user st) =
        [\<lparr>recipients = insert sid (socket_rooms st (room_of drawingId)),
          volatile = False, message = PresenceUpdate roster\<rparr>]
    \<and> socket_rooms (snd (join_room sid drawingId user st)) (room_of drawingId) =
        insert sid (socket_rooms st (room_of drawingId))"
  by (simp add: join_room_def Let_def socket_join_def io_to_def nullish_def)

text \<open>
  User u1 joins again on a new socket: the old entry is gone, the new one is last.
\<close>

theorem join_room_roster_witness:
  "roomUsers (snd (join_room ''s3'' ''D''
       \<lparr>user_id = ''u1'', user_name = ''user'', user_initials = ''U'', user_color = ''#00ff00''\<rparr>
       sample_server)) ''drawing_D''
     = Some [sample_user ''u2'' ''s2'' True, sample_user ''u1'' ''s3'' True]
   \<and> fst (join_room ''s3'' ''D''
       \<lparr>user_id = ''u1'', user_name = ''user'', user_initials = ''U'', user_color = ''#00ff00''\<rparr>
       sample_server)
     = [\<lparr>recipients = {''s3'', ''s1'', ''s2''}, volatile = False,
         message = PresenceUpdate [sample_user ''u2'' ''s2'' True, sample_user ''u1'' ''s3'' True]\<rparr>]"
  using join_room_roster [of "''s3''" "''D''"
      "\<lparr>user_id = ''u1'', user_name = ''user'', user_initials = ''U'', user_color = ''#00ff00''\<rparr>"
      sample_server]
  by (simp add: join_room_def socket_join_def io_to_def room_of_def nullish_def Let_def)

section \<open>Server: relaying cursor and element messages\<close>

text \<open>
  C7. A cursor-move and an element-update are passed on as they came, to the sockets of the
  drawing's room except the sender, and the server state stays as it was.
\<close>

theorem relay_unmodified:
  "cursor_move sid cdata st =
     ([\<lparr>recipients = socket_rooms st (room_of (cm_drawingId cdata)) - {sid},
        volatile = True, message = CursorMoveMsg cdata\<rparr>], st)
   \<and> element_update sid edata st =
     ([\<lparr>recipients = socket_rooms st (room_of (eu_drawingId edata)) - {sid},
        volatile = False, message = ElementUpdateMsg edata\<rparr>], st)
   \<and> sid \<notin> \<Union> (set (map recipients (fst (cursor_move sid cdata st))))
   \<and> sid \<notin> \<Union> (set (map recipients (fst (element_update sid edata st))))"
  by (simp add: cursor_move_def element_update_def socket_to_def)

text \<open>
  Socket s1 sends both messages into a room it shares with s2.
\<close>

theorem relay_unmodified_witness:
  "cursor_move ''s1''
     \<lparr>cm_pointer = (3, 4), cm_button = ''up'', cm_username = ''Ann'', cm_userId = ''u1'',
      cm_drawingId = ''D'', cm_color = ''#ff0000''\<rparr> sample_server
   = ([\<lparr>recipients = {''s2''}, volatile = True,
        message = CursorMoveMsg
          \<lparr>cm_pointer = (3, 4), cm_button = ''up'', cm_username = ''Ann'', cm_userId = ''u1'',
           cm_drawingId = ''D'', cm_color = ''#ff0000''\<rparr>\<rparr>], sample_server)
   \<and> element_update ''s1''
     \<lparr>eu_drawingId = ''D'', eu_elements = [sample_el ''x'' 1 1 ''edit''], eu_userId = ''u1''\<rparr>
     sample_server
   = ([\<lparr>recipients = {''s2''}, volatile = False,
        message = ElementUpdateMsg
          \<lparr>eu_drawingId = ''D'', eu_elements = [sample_el ''x'' 1 1 ''edit''],
           eu_userId = ''u1''\<rparr>\<rparr>], sample_server)"
  using relay_unmodified [of "''s1''"
      "\<lparr>cm_pointer = (3, 4), cm_button = ''up'', cm_username = ''Ann'', cm_userId = ''u1'',
        cm_drawingId = ''D'', cm_color = ''#ff0000''\<rparr>" sample_server
      "\<lparr>eu_drawingId = ''D'', eu_elements = [sample_el ''x'' 1 1 ''edit''], eu_userId = ''u1''\<rparr>"]
  by (auto simp: room_of_def)

section \<open>Server: user activity\<close>

lemma set_isActive_first_shape:
  "((\<forall>u\<in>set us. socketId u \<noteq> sid) \<and> set_isActive_first sid a us = us)
   \<or> (\<exists>j<length us. socketId (us ! j) = sid \<and> (\<forall>k<j. socketId (us ! k) \<noteq> sid)
          \<and> set_isActive_first sid a us = us[j := (us ! j)\<lparr>isActive := a\<rparr>])"
proof (induction us)
  case Nil
  show ?case by simp
next
  case (Cons u us)
  show ?case
  proof (cases "socketId u = sid")
    case True
    then have "0 < length (u # us) \<and> socketId ((u # us) ! 0) = sid
        \<and> (\<forall>k<0. socketId ((u # us) ! k) \<noteq> sid)
        \<and> set_isActive_first sid a (u # us) = (u # us)[0 := ((u # us) ! 0)\<lparr>isActive := a\<rparr>]"
      by simp
    then show ?thesis by blast
  next
    case False
    from Cons.IH show ?thesis
    proof
      assume "(\<forall>u\<in>set us. socketId u \<noteq> sid) \<and> set_isActive_first sid a us = us"
      with False show ?thesis by simp
    next
      assume "\<exists>j<length us. socketId (us ! j) = sid \<and> (\<forall>k<j. socketId (us ! k) \<noteq> sid)
          \<and> set_isActive_first sid a us = us[j := (us ! j)\<lparr>isActive := a\<rparr>]"
      then obtain j where j: "j < length us" "socketId (us ! j) = sid"
        "\<forall>k<j. socketId (us ! k) \<noteq> sid"
        "set_isActive_first sid a us = us[j := (us ! j)\<lparr>isActive := a\<rparr>]" by blast
      have "\<forall>k<Suc j. socketId ((u # us) ! k) \<noteq> sid"
      proof (intro allI impI)
        fix k assume "k < Suc j"
        then show "socketId ((u # us) ! k) \<noteq> sid"
          using False j(3) by (cases k) simp_all
      qed
      with False j have "Suc j < length (u # us) \<and> socketId ((u # us) ! Suc j) = sid
        \<and> (\<forall>k<Suc j. socketId ((u # us) ! k) \<noteq> sid)
        \<and> set_isActive_first sid a (u # us)
            = (u # us)[Suc j := ((u # us) ! Suc j)\<lparr>isActive := a\<rparr>]"
        by simp
      then show ?thesis by blast
    qed
  qed
qed

lemma find_None_socket: "find (\<lambda>u. socketId u = sid) us = None \<longleftrightarrow> (\<forall>u\<in>set us. socketId u \<noteq> sid)"
  by (auto simp: find_None_iff)

text \<open>
  C10. A user-activity message leaves the sockets' room membership and every other room's
  roster as they were. The roster of the named room is either unchanged or differs from the old
  one at a single position: the first entry whose socketId is the sender's, of which only the
  isActive flag is set (that roster is then sent to the room as a presence-update). When the
  room is unknown or holds no entry of the sending socket, the state is unchanged and nothing
  is emitted.
\<close>

theorem user_activity_frame:
  "socket_rooms (snd (user_activity sid drawingId a st)) = socket_rooms st
   \<and> (\<forall>r. r \<noteq> room_of drawingId \<longrightarrow>
         roomUsers (snd (user_activity sid drawingId a st)) r = roomUsers st r)
   \<and> (\<forall>users. roomUsers st (room_of drawingId) = Some users \<longrightarrow>
         roomUsers (snd (user_activity sid drawingId a st)) (room_of drawingId) = Some users
         \<or> (\<exists>j<length users. socketId (users ! j) = sid
               \<and> (\<forall>k<j. socketId (users ! k) \<noteq> sid)
               \<and> roomUsers (snd (user_activity sid drawingId a st)) (room_of drawingId)
                   = Some (users[j := (users ! j)\<lparr>isActive := a\<rparr>])
               \<and> fst (user_activity sid drawingId a st)
                   = [\<lparr>recipients = socket_rooms st (room_of drawingId), volatile = False,
                       message = PresenceUpdate (users[j := (users ! j)\<lparr>isActive := a\<rparr>])\<rparr>]))
   \<and> ((case roomUsers st (room_of drawingId) of
          None \<Rightarrow> True
        | Some users \<Rightarrow> \<forall>u\<in>set users. socketId u \<noteq> sid) \<longrightarrow>
         user_activity sid drawingId a st = ([], st))"
proof (intro conjI allI impI)
  show "socket_rooms (snd (user_activity sid drawingId a st)) = socket_rooms st"
    by (simp add: user_activity_def Let_def split: option.splits)
next
  fix r assume "r \<noteq> room_of drawingId"
  then show "roomUsers (snd (user_activity sid drawingId a st)) r = roomUsers st r"
    by (simp add: user_activity_def Let_def split: option.splits)
next
  fix users assume us: "roomUsers st (room_of drawingId) = Some users"
  let ?st' = "snd (user_activity sid drawingId a st)"
  show "roomUsers ?st' (room_of drawingId) = Some users
         \<or> (\<exists>j<length users. socketId (users ! j) = sid
               \<and> (\<forall>k<j. socketId (users ! k) \<noteq> sid)
               \<and> roomUsers ?st' (room_of drawingId)
                   = Some (users[j := (users ! j)\<lparr>isActive := a\<rparr>])
               \<and> fst (user_activity sid drawingId a st)
                   = [\<lparr>recipients = socket_rooms st (room_of drawingId), volatile = False,
                       message = PresenceUpdate (users[j := (users ! j)\<lparr>isActive := a\<rparr>])\<rparr>])"
  proof (cases "find (\<lambda>u. socketId u = sid) users")
    case None
    with us show ?thesis by (simp add: user_activity_def Let_def)
  next
    case (Some u)
    with us have upd: "roomUsers ?st' (room_of drawingId) = Some (set_isActive_first sid a users)"
      and em: "fst (user_activity sid drawingId a st)
                 = [\<lparr>recipients = socket_rooms st (room_of drawingId), volatile = False,
                     message = PresenceUpdate (set_isActive_first sid a users)\<rparr>]"
      by (simp_all add: user_activity_def Let_def io_to_def)
    from Some have "\<not> (\<forall>u\<in>set users. socketId u \<noteq> sid)"
      by (simp add: find_None_socket [symmetric])
    with set_isActive_first_shape [of users sid a]
    obtain j where "j < length users" "socketId (users ! j) = sid"
      "\<forall>k<j. socketId (users ! k) \<noteq> sid"
      "set_isActive_first sid a users = users[j := (users ! j)\<lparr>isActive := a\<rparr>]" by blast
    with upd em show ?thesis by auto
  qed
next
  assume "case roomUsers st (room_of drawingId) of
          None \<Rightarrow> True
        | Some users \<Rightarrow> \<forall>u\<in>set users. socketId u \<noteq> sid"
  then show "user_activity sid drawingId a st = ([], st)"
    by (auto simp: user_activity_def Let_def find_None_socket [symmetric] split: option.splits)
qed

text \<open>
  Socket s2 goes idle; an unknown socket and an unknown room change nothing.
\<close>

theorem user_activity_frame_witness:
  "roomUsers (snd (user_activity ''s2'' ''D'' False sample_server)) ''drawing_D''
     = Some [sample_user ''u1'' ''s1'' True, sample_user ''u2'' ''s2'' False]
   \<and> socket_rooms (snd (user_activity ''s2'' ''D'' False sample_server))
     = socket_rooms sample_server
   \<and> user_activity ''s9'' ''D'' False sample_server = ([], sample_server)
   \<and> user_activity ''s2'' ''E'' False sample_server = ([], sample_server)"
proof -
  note t1 = user_activity_frame [of "''s2''" "''D''" False sample_server]
  note t2 = user_activity_frame [of "''s9''" "''D''" False sample_server]
  note t3 = user_activity_frame [of "''s2''" "''E''" False sample_server]
  have a: "roomUsers (snd (user_activity ''s2'' ''D'' False sample_server)) ''drawing_D''
     = Some [sample_user ''u1'' ''s1'' True, sample_user ''u2'' ''s2'' False]"
    by (simp add: user_activity_def room_of_def Let_def)
  from t1 have b: "socket_rooms (snd (user_activity ''s2'' ''D'' False sample_server))
     = socket_rooms sample_server" by blast
  from t2 have c: "user_activity ''s9'' ''D'' False sample_server = ([], sample_server)"
    by (simp add: room_of_def)
  from t3 have d: "user_activity ''s2'' ''E'' False sample_server = ([], sample_server)"
    by (simp add: room_of_def)
  from a b c d show ?thesis by blast
qed

end
